theory Spec2Isabelle
  imports
    Complex_Main
    "HOL-Library.Word"
    "HOL-Library.List_Lexorder"
    "HOL-Library.Char_ord"
    "HOL-Library.AList"
    "HOL-Library.Log_Nat"
    "HOL-Library.Multiset"
begin

unbundle bit_operations_syntax

section \<open>dire\_wolf\_to\_navit: a shallow embedding\<close>

text \<open>
  The program keeps a dictionary of APRS position reports read from Dire Wolf's CSV log,
  drops stale reports, writes the dictionary as a Navit POI file and prints a mock NMEA
  GPGGA sentence. Python strings are Isabelle strings; every exception the code can raise
  is a value of \<open>error\<close>, and a function that can raise returns \<open>error + 'a\<close>.
\<close>

datatype error = ValueError | TypeError | OverflowError | KeyError

subsection \<open>Strings\<close>

text \<open>
  A Python string read from the log is the list of the bytes of its UTF-8 encoding (the log
  is decoded with \<^verbatim>\<open>errors = 'replace'\<close>, so every string is well-formed); the order on
  strings is the lexicographic order of the bytes, which is the order of the code points.

  White space: \<^verbatim>\<open>str.isspace\<close> and \<^verbatim>\<open>str.strip\<close> know the ASCII characters tab to
  carriage return, 0x1C to 0x1F and the space; \<^verbatim>\<open>float\<close> knows tab to carriage return and
  the space. Both know the white space beyond ASCII: U+0085, U+00A0, U+1680, U+2000 to
  U+200A, U+2028, U+2029, U+202F, U+205F and U+3000, of two or three bytes each.
\<close>

definition is_space :: "char \<Rightarrow> bool" where
  "is_space c = (let n = (of_char c :: int) in (9 \<le> n \<and> n \<le> 13) \<or> (28 \<le> n \<and> n \<le> 32))"

definition is_c_space :: "char \<Rightarrow> bool" where
  "is_c_space c = (let n = (of_char c :: int) in (9 \<le> n \<and> n \<le> 13) \<or> n = 32)"

definition wide_space :: "int list \<Rightarrow> nat" where
  "wide_space b =
     (if b = [0xC2, 0x85] \<or> b = [0xC2, 0xA0] then 2
      else if b = [0xE1, 0x9A, 0x80] \<or> b = [0xE2, 0x81, 0x9F] \<or> b = [0xE3, 0x80, 0x80] then 3
      else if length b = 3 \<and> take 2 b = [0xE2, 0x80] \<and>
              ((0x80 \<le> b ! 2 \<and> b ! 2 \<le> 0x8A) \<or> b ! 2 = 0xA8 \<or> b ! 2 = 0xA9 \<or> b ! 2 = 0xAF)
      then 3
      else 0)"

definition space_first :: "(char \<Rightarrow> bool) \<Rightarrow> string \<Rightarrow> nat" where
  "space_first ascii s =
     (if s \<noteq> [] \<and> ascii (hd s) then 1
      else if wide_space (map of_char (take 2 s)) = 2 then 2
      else wide_space (map of_char (take 3 s)))"

definition space_last :: "(char \<Rightarrow> bool) \<Rightarrow> string \<Rightarrow> nat" where
  "space_last ascii s =
     (if s \<noteq> [] \<and> ascii (last s) then 1
      else if 2 \<le> length s \<and> wide_space (map of_char (drop (length s - 2) s)) = 2 then 2
      else if 3 \<le> length s then wide_space (map of_char (drop (length s - 3) s))
      else 0)"

function lstrip :: "(char \<Rightarrow> bool) \<Rightarrow> string \<Rightarrow> string" where
  "lstrip ascii s =
     (if s = [] \<or> space_first ascii s = 0 then s
      else lstrip ascii (drop (space_first ascii s) s))"
  by pat_completeness auto
termination
  by (relation "measure (\<lambda>(ascii, s). length s)") auto

function rstrip :: "(char \<Rightarrow> bool) \<Rightarrow> string \<Rightarrow> string" where
  "rstrip ascii s =
     (if s = [] \<or> space_last ascii s = 0 then s
      else rstrip ascii (take (length s - space_last ascii s) s))"
  by pat_completeness auto
termination
  by (relation "measure (\<lambda>(ascii, s). length s)") auto

declare lstrip.simps [simp del] rstrip.simps [simp del]

definition strip :: "string \<Rightarrow> string" where
  "strip s = rstrip is_space (lstrip is_space s)"

definition isspace :: "string \<Rightarrow> bool" where
  "isspace s = (s \<noteq> [] \<and> lstrip is_space s = [])"

definition is_digit :: "char \<Rightarrow> bool" where
  "is_digit c = (let n = (of_char c :: int) in 48 \<le> n \<and> n \<le> 57)"

definition digit_val :: "char \<Rightarrow> int" where
  "digit_val c = of_char c - 48"

definition lower_ascii :: "char \<Rightarrow> char" where
  "lower_ascii c = (let n = (of_char c :: int) in if 65 \<le> n \<and> n \<le> 90 then char_of (n + 32) else c)"

definition decimal :: "int list \<Rightarrow> int" where
  "decimal ds = foldl (\<lambda>a d. 10 * a + d) 0 ds"

subsection \<open>Floats\<close>

text \<open>
  A Python float is an IEEE binary64 number: a rational with a significand of 53 bits, or an
  infinity, or a NaN. \<open>fl\<close> rounds a rational to the nearest number with a 53-bit
  significand, ties to even; every float operation of the program is the exact operation
  followed by \<open>fl\<close>. The exponent range is not bounded here: the program compares
  floats with 90 and 180 and multiplies numbers below 180 by 60, where neither overflow nor
  underflow changes a result.

  \<^verbatim>\<open>float(s)\<close> follows the grammar of the language reference: white space around,
  a sign, then \<^verbatim>\<open>inf\<close>, \<^verbatim>\<open>infinity\<close> or \<^verbatim>\<open>nan\<close> in any case, or digits with an
  optional point and an optional exponent, where one underscore may stand between two
  digits. Anything else raises ValueError. The decimal digits of other scripts, which
  \<^verbatim>\<open>float\<close> reads as well, are not part of \<open>float_py\<close>: it is the library's function
  on the strings whose characters beyond ASCII are white space.
\<close>

datatype pyfloat = Finite rat | PosInf | NegInf | NaN

definition round_half_even :: "rat \<Rightarrow> int" where
  "round_half_even x =
     (let f = \<lfloor>x\<rfloor>; r = x - of_int f
      in if r < 1 / 2 then f else if 1 / 2 < r then f + 1 else if even f then f else f + 1)"

definition binade :: "rat \<Rightarrow> int" where
  "binade x =
     (let (p, q) = quotient_of x; k = bitlen p - bitlen q
      in if 2 powi k \<le> x then k else k - 1)"

definition fl :: "rat \<Rightarrow> rat" where
  "fl x =
     (if x = 0 then 0
      else let u = 2 powi (binade \<bar>x\<bar> - 52) in of_int (round_half_even (x / u)) * u)"

fun digits_after :: "string \<Rightarrow> int list \<times> string" where
  "digits_after [] = ([], [])"
| "digits_after [c] = (if is_digit c then ([digit_val c], []) else ([], [c]))"
| "digits_after (c # d # cs) =
     (if is_digit c then
        (case digits_after (d # cs) of (ds, r) \<Rightarrow> (digit_val c # ds, r))
      else if c = CHR ''_'' \<and> is_digit d then
        (case digits_after cs of (ds, r) \<Rightarrow> (digit_val d # ds, r))
      else ([], c # d # cs))"

definition digitpart :: "string \<Rightarrow> int list \<times> string" where
  "digitpart s =
     (case s of
        [] \<Rightarrow> ([], [])
      | c # cs \<Rightarrow>
          if is_digit c then (case digits_after cs of (ds, r) \<Rightarrow> (digit_val c # ds, r))
          else ([], s))"

definition mantissa :: "string \<Rightarrow> (rat \<times> string) option" where
  "mantissa s =
     (case digitpart s of (ip, r1) \<Rightarrow>
        (case r1 of
           [] \<Rightarrow> if ip = [] then None else Some (of_int (decimal ip), [])
         | c # r \<Rightarrow>
             if c = CHR ''.'' then
               (case digitpart r of (fp, r2) \<Rightarrow>
                  if ip = [] \<and> fp = [] then None
                  else Some (of_int (decimal ip) + of_int (decimal fp) / 10 ^ length fp, r2))
             else if ip = [] then None
             else Some (of_int (decimal ip), r1)))"

definition exponent :: "string \<Rightarrow> int option" where
  "exponent s =
     (case s of
        [] \<Rightarrow> Some 0
      | c # r \<Rightarrow>
          if c = CHR ''e'' \<or> c = CHR ''E'' then
            (case (case r of
                     [] \<Rightarrow> (1, [])
                   | d # r' \<Rightarrow>
                       if d = CHR ''-'' then (- 1, r')
                       else if d = CHR ''+'' then (1, r') else (1, r)) of
               (sg, ds) \<Rightarrow>
                 (case digitpart ds of (es, rest) \<Rightarrow>
                    if es \<noteq> [] \<and> rest = [] then Some (sg * decimal es) else None))
          else None)"

definition float_py :: "string \<Rightarrow> error + pyfloat" where
  "float_py s0 =
     (let s = rstrip is_c_space (lstrip is_c_space s0);
          neg = (s \<noteq> [] \<and> hd s = CHR ''-'');
          body = (if s \<noteq> [] \<and> (hd s = CHR ''-'' \<or> hd s = CHR ''+'') then tl s else s);
          low = map lower_ascii body
      in if low = ''inf'' \<or> low = ''infinity'' then Inr (if neg then NegInf else PosInf)
         else if low = ''nan'' then Inr NaN
         else
           (case mantissa body of
              None \<Rightarrow> Inl ValueError
            | Some (m, r) \<Rightarrow>
                (case exponent r of
                   None \<Rightarrow> Inl ValueError
                 | Some e \<Rightarrow> Inr (Finite (fl ((if neg then - m else m) * 10 powi e))))))"

definition float_gt :: "pyfloat \<Rightarrow> rat \<Rightarrow> bool" where
  "float_gt x b = (case x of Finite v \<Rightarrow> b < v | PosInf \<Rightarrow> True | NegInf \<Rightarrow> False | NaN \<Rightarrow> False)"

definition float_lt :: "pyfloat \<Rightarrow> rat \<Rightarrow> bool" where
  "float_lt x b = (case x of Finite v \<Rightarrow> v < b | PosInf \<Rightarrow> False | NegInf \<Rightarrow> True | NaN \<Rightarrow> False)"

subsection \<open>Date-times\<close>

text \<open>
  A \<^verbatim>\<open>datetime\<close> is the number of microseconds its wall-clock fields stand for, counted
  from 0001-01-01T00:00:00, and its \<^verbatim>\<open>tzinfo\<close>: \<open>None\<close> for a naive value, or the offset
  from UTC in microseconds. A \<^verbatim>\<open>timedelta\<close> is a number of microseconds.

  \<^verbatim>\<open>datetime.fromisoformat\<close> is the one of Python 3.7 to 3.10, which the program is
  written for (it "can't handle Z"), on the format its documentation gives:
  \<^verbatim>\<open>YYYY-MM-DD\<close>, then optionally one separator character, of one to four bytes, and
  \<^verbatim>\<open>HH[:MM[:SS[.fff[fff]]]]\<close> with an optional offset \<^verbatim>\<open>+HH:MM[:SS[.ffffff]]\<close>;
  the fields are range-checked as the constructor does, and the offset must be shorter than
  a day. An offset whose hours, minutes and seconds are all zero is UTC, whatever its
  fraction. A string that is not of this format raises ValueError here; the parsers of
  the library take some more strings, and the one of Python 3.11 many more.
  \<^verbatim>\<open>str.replace('Z', '+00:00')\<close> replaces every \<open>Z\<close>.

  Adding a \<^verbatim>\<open>timedelta\<close> raises OverflowError when the result leaves the years 1 to 9999;
  \<^verbatim>\<open>timedelta(minutes = m)\<close> raises it beyond 999999999 days; comparing a naive with an
  aware value raises TypeError. The right-hand side of each comparison in the program is
  \<^verbatim>\<open>utcnow().replace(tzinfo = utc)\<close>, given as its microsecond count \<open>now\<close>.
\<close>

record datetime =
  wall :: int
  utcoffset :: "int option"

definition is_leap :: "int \<Rightarrow> bool" where
  "is_leap y = (y mod 4 = 0 \<and> (y mod 400 = 0 \<or> y mod 100 \<noteq> 0))"

definition days_in_month :: "int \<Rightarrow> int \<Rightarrow> int" where
  "days_in_month y m =
     (if m = 2 then (if is_leap y then 29 else 28)
      else if m = 4 \<or> m = 6 \<or> m = 9 \<or> m = 11 then 30 else 31)"

definition days_before_year :: "int \<Rightarrow> int" where
  "days_before_year y = (y - 1) * 365 + (y - 1) div 4 - (y - 1) div 100 + (y - 1) div 400"

definition days_before_month :: "int \<Rightarrow> int \<Rightarrow> int" where
  "days_before_month y m = sum_list (map (days_in_month y) [1..m - 1])"

definition ymd2ord :: "int \<Rightarrow> int \<Rightarrow> int \<Rightarrow> int" where
  "ymd2ord y m d = days_before_year y + days_before_month y m + d"

definition MAX_WALL :: int where
  "MAX_WALL = 315537897599999999"

definition digits_exact :: "string \<Rightarrow> int option" where
  "digits_exact s =
     (if s \<noteq> [] \<and> list_all is_digit s then Some (decimal (map digit_val s)) else None)"

definition parse_isoformat_date :: "string \<Rightarrow> (int \<times> int \<times> int) option" where
  "parse_isoformat_date dstr =
     (if length dstr = 10 \<and> dstr ! 4 = CHR ''-'' \<and> dstr ! 7 = CHR ''-'' then
        (case (digits_exact (take 4 dstr), digits_exact (take 2 (drop 5 dstr)),
               digits_exact (drop 8 dstr)) of
           (Some y, Some m, Some d) \<Rightarrow> Some (y, m, d)
         | _ \<Rightarrow> None)
      else None)"

definition parse_hh_mm_ss_ff :: "string \<Rightarrow> (int \<times> int \<times> int \<times> int) option" where
  "parse_hh_mm_ss_ff t =
     (let n = length t in
      if n = 2 then
        (case digits_exact t of Some h \<Rightarrow> Some (h, 0, 0, 0) | None \<Rightarrow> None)
      else if n = 5 \<and> t ! 2 = CHR '':'' then
        (case (digits_exact (take 2 t), digits_exact (drop 3 t)) of
           (Some h, Some m) \<Rightarrow> Some (h, m, 0, 0)
         | _ \<Rightarrow> None)
      else if 8 \<le> n \<and> t ! 2 = CHR '':'' \<and> t ! 5 = CHR '':'' then
        (case (digits_exact (take 2 t), digits_exact (take 2 (drop 3 t)),
               digits_exact (take 2 (drop 6 t))) of
           (Some h, Some m, Some s) \<Rightarrow>
             if n = 8 then Some (h, m, s, 0)
             else if t ! 8 = CHR ''.'' \<and> (n = 12 \<or> n = 15) then
               (case digits_exact (drop 9 t) of
                  Some f \<Rightarrow> Some (h, m, s, if n = 12 then f * 1000 else f)
                | None \<Rightarrow> None)
             else None
         | _ \<Rightarrow> None)
      else None)"

definition is_sign :: "char \<Rightarrow> bool" where
  "is_sign c = (c = CHR ''+'' \<or> c = CHR ''-'')"

definition parse_isoformat_time ::
  "string \<Rightarrow> ((int \<times> int \<times> int \<times> int) \<times> int option) option" where
  "parse_isoformat_time tstr =
     (case parse_hh_mm_ss_ff (takeWhile (\<lambda>c. \<not> is_sign c) tstr) of
        None \<Rightarrow> None
      | Some comps \<Rightarrow>
          (case dropWhile (\<lambda>c. \<not> is_sign c) tstr of
             [] \<Rightarrow> Some (comps, None)
           | sg # tzstr \<Rightarrow>
               if length tzstr = 5 \<or> length tzstr = 8 \<or> length tzstr = 15 then
                 (case parse_hh_mm_ss_ff tzstr of
                    None \<Rightarrow> None
                  | Some (h, m, s, f) \<Rightarrow>
                      Some (comps,
                        Some (if (h * 60 + m) * 60 + s = 0 then 0
                              else (if sg = CHR ''-'' then - 1 else 1) *
                                   (((h * 60 + m) * 60 + s) * 1000000 + f))))
               else None))"

definition separator_width :: "char \<Rightarrow> nat" where
  "separator_width c =
     (let n = (of_char c :: int)
      in if n < 0x80 then 1 else if 0xE0 \<le> n \<and> n < 0xF0 then 3 else if 0xF0 \<le> n then 4 else 2)"

definition fromisoformat :: "string \<Rightarrow> error + datetime" where
  "fromisoformat date_string =
     (case parse_isoformat_date (take 10 date_string) of
        None \<Rightarrow> Inl ValueError
      | Some (y, mo, d) \<Rightarrow>
          (case (if length date_string = 10 then Some ((0, 0, 0, 0), None)
                 else parse_isoformat_time
                        (drop (10 + separator_width (date_string ! 10)) date_string)) of
             None \<Rightarrow> Inl ValueError
           | Some ((h, mi, s, us), tz) \<Rightarrow>
               if 1 \<le> y \<and> y \<le> 9999 \<and> 1 \<le> mo \<and> mo \<le> 12 \<and> 1 \<le> d \<and> d \<le> days_in_month y mo
                  \<and> h \<le> 23 \<and> mi \<le> 59 \<and> s \<le> 59
                  \<and> (case tz of None \<Rightarrow> True
                      | Some off \<Rightarrow> - 86400000000 < off \<and> off < 86400000000)
               then Inr \<lparr>wall = ((((ymd2ord y mo d - 1) * 24 + h) * 60 + mi) * 60 + s) * 1000000 + us,
                         utcoffset = tz\<rparr>
               else Inl ValueError))"

definition replace_Z :: "string \<Rightarrow> string" where
  "replace_Z s = concat (map (\<lambda>c. if c = CHR ''Z'' then ''+00:00'' else [c]) s)"

definition timedelta_minutes :: "int \<Rightarrow> error + int" where
  "timedelta_minutes m =
     (if - 999999999 \<le> m div 1440 \<and> m div 1440 \<le> 999999999 then Inr (m * 60000000)
      else Inl OverflowError)"

definition dt_add :: "datetime \<Rightarrow> int \<Rightarrow> error + datetime" where
  "dt_add t td =
     (if 0 \<le> wall t + td \<and> wall t + td \<le> MAX_WALL then Inr (t\<lparr>wall := wall t + td\<rparr>)
      else Inl OverflowError)"

definition dt_less_utc :: "datetime \<Rightarrow> int \<Rightarrow> error + bool" where
  "dt_less_utc t now =
     (case utcoffset t of None \<Rightarrow> Inl TypeError | Some off \<Rightarrow> Inr (wall t - off < now))"

definition older_than :: "int option \<Rightarrow> datetime \<Rightarrow> int \<Rightarrow> error + bool" where
  "older_than minutes then' now =
     (case minutes of
        None \<Rightarrow> Inr False
      | Some m \<Rightarrow>
          (case timedelta_minutes m of
             Inl e \<Rightarrow> Inl e
           | Inr td \<Rightarrow>
               (case dt_add then' td of
                  Inl e \<Rightarrow> Inl e
                | Inr t \<Rightarrow> dt_less_utc t now)))"

subsection \<open>The library\<close>

text \<open>
  On the text of the log the program calls four functions of Python's library:
  \<^verbatim>\<open>float\<close>, \<^verbatim>\<open>str.isspace\<close>, \<^verbatim>\<open>str.strip\<close> and \<^verbatim>\<open>datetime.fromisoformat\<close>. The program is
  a function of these four, and the general statements about the ingest, the removal and
  the POI file are proved for every \<open>library\<close>: none of them depends on what the library
  takes for white space, for a number or for a date. \<open>cpython\<close> is the library as
  defined above; it stands where the program is evaluated at a concrete input, each time
  ASCII text in the documented formats of a number and of a date.
\<close>

record library =
  py_float :: "string \<Rightarrow> error + pyfloat"
  str_isspace :: "string \<Rightarrow> bool"
  str_strip :: "string \<Rightarrow> string"
  datetime_fromisoformat :: "string \<Rightarrow> error + datetime"

definition cpython :: library where
  "cpython =
     \<lparr>py_float = float_py, str_isspace = isspace, str_strip = strip,
      datetime_fromisoformat = fromisoformat\<rparr>"

subsection \<open>The validators\<close>

text \<open>
  Each validator runs the library function under a bare \<^verbatim>\<open>except\<close>: any exception
  makes the string invalid.
\<close>

definition iso_string_valid :: "library \<Rightarrow> string \<Rightarrow> bool" where
  "iso_string_valid lib iso_string =
     (case datetime_fromisoformat lib (replace_Z iso_string) of
        Inl e \<Rightarrow> False
      | Inr t \<Rightarrow> True)"

definition latitude_string_valid :: "library \<Rightarrow> string \<Rightarrow> bool" where
  "latitude_string_valid lib latitude_string =
     (case py_float lib latitude_string of
        Inl e \<Rightarrow> False
      | Inr x \<Rightarrow> float_gt x (- 90) \<and> float_lt x 90)"

definition longitude_string_valid :: "library \<Rightarrow> string \<Rightarrow> bool" where
  "longitude_string_valid lib longitude_string =
     (case py_float lib longitude_string of
        Inl e \<Rightarrow> False
      | Inr x \<Rightarrow> float_gt x (- 180) \<and> float_lt x 180)"

subsection \<open>The position dictionary\<close>

text \<open>
  A row of \<^verbatim>\<open>csv.DictReader\<close> maps a field name to its string, or to \<^verbatim>\<open>None\<close> where the
  line is short. \<^verbatim>\<open>POI_DICTIONARY\<close> is a list of pairs with distinct keys, in insertion
  order: assigning to a key that is present keeps its place, as a Python dictionary does.
  The thresholds and the comment flag are the configuration; the clock is read once per
  loop iteration, so the loops take the readings as a function of the iteration number.
  The log file is the list of its rows, or \<open>None\<close> when the file does not exist; that
  the log is emptied after reading is left out.
\<close>

type_synonym row = "string \<Rightarrow> string option"

record entry =
  isotime :: string
  source :: string
  latitude :: string
  longitude :: string
  comment :: string

type_synonym poi_dictionary = "(string \<times> entry) list"

record config =
  MINUTES_UNTIL_APRS_INACTIVE :: "int option"
  MINUTES_UNTIL_APRS_REMOVED :: "int option"
  SHOW_COMMENT_FIELD :: bool

definition NAVIT_POI_ACTIVE_ICON_FILE_PATH :: string where
  "NAVIT_POI_ACTIVE_ICON_FILE_PATH = ''/home/pi/dire_wolf_to_navit/icons/gprs_active.png''"

definition NAVIT_POI_INACTIVE_ICON_FILE_PATH :: string where
  "NAVIT_POI_INACTIVE_ICON_FILE_PATH = ''/home/pi/dire_wolf_to_navit/icons/gprs_inactive.png''"

definition all_valid :: "library \<Rightarrow> row \<Rightarrow> bool" where
  "all_valid lib row =
     (let valid_source =
            (case row ''source'' of None \<Rightarrow> False | Some s \<Rightarrow> s \<noteq> ''source'' \<and> \<not> str_isspace lib s);
          valid_latitude =
            (case row ''latitude'' of None \<Rightarrow> False | Some s \<Rightarrow> latitude_string_valid lib s);
          valid_longitude =
            (case row ''longitude'' of
               None \<Rightarrow> False
             | Some s \<Rightarrow>
                 (case row ''latitude'' of None \<Rightarrow> False | Some l \<Rightarrow> longitude_string_valid lib l));
          valid_isotime =
            (case row ''isotime'' of None \<Rightarrow> False | Some s \<Rightarrow> iso_string_valid lib s)
      in valid_source \<and> valid_latitude \<and> valid_longitude \<and> valid_isotime)"

definition ingest_row :: "library \<Rightarrow> row \<Rightarrow> poi_dictionary \<Rightarrow> poi_dictionary" where
  "ingest_row lib row d =
     (if \<not> all_valid lib row then d
      else
        (case (row ''isotime'', row ''source'', row ''latitude'', row ''longitude'') of
           (Some i, Some s, Some la, Some lo) \<Rightarrow>
             AList.update s
               \<lparr>isotime = i, source = s, latitude = la, longitude = lo,
                comment = (case row ''comment'' of None \<Rightarrow> [] | Some c \<Rightarrow> str_strip lib c)\<rparr> d
         | _ \<Rightarrow> d))"

definition refresh_dictionary_from_dire_wolf_csv_log_file ::
  "library \<Rightarrow> row list option \<Rightarrow> poi_dictionary \<Rightarrow> poi_dictionary" where
  "refresh_dictionary_from_dire_wolf_csv_log_file lib csv_file d =
     (case csv_file of None \<Rightarrow> d | Some rows \<Rightarrow> fold (ingest_row lib) rows d)"

text \<open>
  The removal loop runs over a snapshot of the keys. \<^verbatim>\<open>POI_DICTIONARY[key]\<close> raises
  KeyError for a missing key, which cannot happen for a key of the snapshot.
\<close>

fun remove_loop ::
  "library \<Rightarrow> int option \<Rightarrow> (nat \<Rightarrow> int) \<Rightarrow> nat \<Rightarrow> string list \<Rightarrow> poi_dictionary \<Rightarrow> error + poi_dictionary" where
  "remove_loop lib minutes clock i [] d = Inr d"
| "remove_loop lib minutes clock i (key # keys) d =
     (case map_of d key of
        None \<Rightarrow> Inl KeyError
      | Some entry \<Rightarrow>
          (case datetime_fromisoformat lib (replace_Z (isotime entry)) of
             Inl e \<Rightarrow> Inl e
           | Inr then' \<Rightarrow>
               (case older_than minutes then' (clock i) of
                  Inl e \<Rightarrow> Inl e
                | Inr stale \<Rightarrow>
                    remove_loop lib minutes clock (Suc i) keys
                      (if stale then AList.delete key d else d))))"

definition remove_stale_entries_from_dictionary ::
  "library \<Rightarrow> config \<Rightarrow> (nat \<Rightarrow> int) \<Rightarrow> poi_dictionary \<Rightarrow> error + poi_dictionary" where
  "remove_stale_entries_from_dictionary lib cfg clock d =
     remove_loop lib (MINUTES_UNTIL_APRS_REMOVED cfg) clock 0 (map fst d) d"

text \<open>
  \<^verbatim>\<open>sorted(..., reverse = True)\<close> keeps the order of equal keys: the list is reversed,
  sorted stably in ascending order and reversed again.
\<close>

definition sorted_poi_dictionary :: "poi_dictionary \<Rightarrow> entry list" where
  "sorted_poi_dictionary d = rev (sort_key isotime (rev (map snd d)))"

text \<open>The em dash of the label, U+2014, in UTF-8.\<close>

definition em_dash :: string where
  "em_dash = [CHR 0xE2, CHR 0x80, CHR 0x94]"

definition is_inactive :: "config \<Rightarrow> datetime \<Rightarrow> int \<Rightarrow> error + bool" where
  "is_inactive cfg then' now = older_than (MINUTES_UNTIL_APRS_INACTIVE cfg) then' now"

definition poi_format :: "library \<Rightarrow> config \<Rightarrow> entry \<Rightarrow> string \<Rightarrow> string" where
  \<open>poi_format lib cfg entry icon_file_path =
     (let comment_is_not_empty = (0 < length (str_strip lib (comment entry)));
          comment' =
            (if SHOW_COMMENT_FIELD cfg \<and> comment_is_not_empty
             then '' '' @ em_dash @ '' '' @ comment entry else [])
      in ''mg: '' @ longitude entry @ '' '' @ latitude entry @
         '' isotime="'' @ isotime entry @
         ''" type="poi_custom0" icon_src="'' @ icon_file_path @
         ''" label="'' @ source entry @ comment' @ ''"'' @ [CHR 0x0A])\<close>

definition poi_line :: "library \<Rightarrow> config \<Rightarrow> int \<Rightarrow> entry \<Rightarrow> error + string" where
  "poi_line lib cfg now entry =
     (case datetime_fromisoformat lib (replace_Z (isotime entry)) of
        Inl e \<Rightarrow> Inl e
      | Inr then' \<Rightarrow>
          (case is_inactive cfg then' now of
             Inl e \<Rightarrow> Inl e
           | Inr inactive \<Rightarrow>
               Inr (poi_format lib cfg entry
                      (if inactive then NAVIT_POI_INACTIVE_ICON_FILE_PATH
                       else NAVIT_POI_ACTIVE_ICON_FILE_PATH))))"

text \<open>
  The file is opened with mode \<^verbatim>\<open>w+\<close>, which truncates it, and every entry is one
  \<^verbatim>\<open>write\<close>. When the loop raises, the \<^verbatim>\<open>with\<close> block closes the file with what was
  written so far. The result is the contents of the file and the exception, if any.
\<close>

fun write_entries ::
  "library \<Rightarrow> config \<Rightarrow> (nat \<Rightarrow> int) \<Rightarrow> nat \<Rightarrow> entry list \<Rightarrow> string \<Rightarrow> string \<times> error option" where
  "write_entries lib cfg clock i [] navit_poi_file = (navit_poi_file, None)"
| "write_entries lib cfg clock i (entry # entries) navit_poi_file =
     (case poi_line lib cfg (clock i) entry of
        Inl e \<Rightarrow> (navit_poi_file, Some e)
      | Inr line \<Rightarrow> write_entries lib cfg clock (Suc i) entries (navit_poi_file @ line))"

definition refresh_navit_poi_file_from_dictionary ::
  "library \<Rightarrow> config \<Rightarrow> (nat \<Rightarrow> int) \<Rightarrow> poi_dictionary \<Rightarrow> string \<Rightarrow> string \<times> error option" where
  "refresh_navit_poi_file_from_dictionary lib cfg clock d navit_poi_file =
     write_entries lib cfg clock 0 (sorted_poi_dictionary d) []"

text \<open>
  The dictionaries the maintenance thread can hold: it starts empty, and each cycle reads
  the log and removes the stale entries.
\<close>

inductive reachable :: "library \<Rightarrow> poi_dictionary \<Rightarrow> bool" for lib where
  reachable_empty: "reachable lib []"
| reachable_refresh:
    "reachable lib d \<Longrightarrow> reachable lib (refresh_dictionary_from_dire_wolf_csv_log_file lib csv_file d)"
| reachable_remove:
    "reachable lib d \<Longrightarrow> remove_stale_entries_from_dictionary lib cfg clock d = Inr d' \<Longrightarrow> reachable lib d'"

text \<open>
  For the statements: the UTC instant a stored timestamp stands for, when it parses and
  carries an offset; and whether a timestamp carries an offset and stays within the years
  1 to 9999 when \<open>td\<close> microseconds are added.
\<close>

definition utc_instant :: "library \<Rightarrow> string \<Rightarrow> int option" where
  "utc_instant lib iso_string =
     (case datetime_fromisoformat lib (replace_Z iso_string) of
        Inl e \<Rightarrow> None
      | Inr t \<Rightarrow> (case utcoffset t of None \<Rightarrow> None | Some off \<Rightarrow> Some (wall t - off)))"

definition aware_in_range :: "library \<Rightarrow> int \<Rightarrow> string \<Rightarrow> bool" where
  "aware_in_range lib td iso_string =
     (case datetime_fromisoformat lib (replace_Z iso_string) of
        Inl e \<Rightarrow> False
      | Inr t \<Rightarrow> utcoffset t \<noteq> None \<and> 0 \<le> wall t + td \<and> wall t + td \<le> MAX_WALL)"

definition stamps_valid :: "library \<Rightarrow> poi_dictionary \<Rightarrow> bool" where
  "stamps_valid lib d = list_all (\<lambda>(k, e). iso_string_valid lib (isotime e)) d"

text \<open>
  The timestamp of an entry plus a threshold of \<open>td\<close> microseconds lies before \<open>now\<close>,
  as the specification words the staleness of an entry.
\<close>

definition past_threshold :: "library \<Rightarrow> int \<Rightarrow> int \<Rightarrow> entry \<Rightarrow> bool" where
  "past_threshold lib td now entry =
     (case utc_instant lib (isotime entry) of None \<Rightarrow> False | Some u \<Rightarrow> u + td < now)"

text \<open>The line written for the entry at a position of the sorted list.\<close>

definition line_at :: "library \<Rightarrow> config \<Rightarrow> (nat \<Rightarrow> int) \<Rightarrow> nat \<times> entry \<Rightarrow> string" where
  "line_at lib cfg clock ie =
     (case poi_line lib cfg (clock (fst ie)) (snd ie) of Inl e \<Rightarrow> [] | Inr line \<Rightarrow> line)"

text \<open>
  The row \<^verbatim>\<open>csv.DictReader\<close> yields for a complete line of the log, with the five fields
  the program reads.
\<close>

definition csv_row :: "string \<Rightarrow> string \<Rightarrow> string \<Rightarrow> string \<Rightarrow> string \<Rightarrow> row" where
  "csv_row i s la lo c =
     map_of [(''isotime'', i), (''source'', s), (''latitude'', la), (''longitude'', lo),
             (''comment'', c)]"

text \<open>The configuration constants of the source.\<close>

definition default_config :: config where
  "default_config =
     \<lparr>MINUTES_UNTIL_APRS_INACTIVE = Some 5, MINUTES_UNTIL_APRS_REMOVED = Some 60,
      SHOW_COMMENT_FIELD = True\<rparr>"

subsection \<open>NMEA checksum\<close>

text \<open>
  \<^verbatim>\<open>get_checksum\<close> folds \<^verbatim>\<open>chr(ord(checksum) ^ ord(c))\<close> over the sentence and prints
  the result with \<^verbatim>\<open>'{0:02X}'\<close>. Only the code points of the sentence matter, so the
  argument is the list of the code points of the Python string (each at most 0x10FFFF).
  \<^verbatim>\<open>chr\<close> raises ValueError above 0x10FFFF; \<^verbatim>\<open>02X\<close> is upper-case hexadecimal,
  zero-padded to a width of at least two.
\<close>

definition hex_digit :: "nat \<Rightarrow> char" where
  "hex_digit d = (''0123456789ABCDEF'' ! d)"

fun hex_upper :: "nat \<Rightarrow> string" where
  "hex_upper n =
     (if n < 16 then [hex_digit n] else hex_upper (n div 16) @ [hex_digit (n mod 16)])"

definition zero_pad :: "nat \<Rightarrow> string \<Rightarrow> string" where
  "zero_pad w s = replicate (w - length s) CHR ''0'' @ s"

definition format_02X :: "nat \<Rightarrow> string" where
  "format_02X n = zero_pad 2 (hex_upper n)"

definition chr_py :: "nat \<Rightarrow> error + nat" where
  "chr_py n = (if n \<le> 0x10FFFF then Inr n else Inl ValueError)"

fun checksum_loop :: "nat \<Rightarrow> nat list \<Rightarrow> error + nat" where
  "checksum_loop checksum [] = Inr checksum"
| "checksum_loop checksum (c # cs) =
     (case chr_py (checksum XOR c) of
        Inl e \<Rightarrow> Inl e
      | Inr checksum' \<Rightarrow> checksum_loop checksum' cs)"

definition get_checksum :: "nat list \<Rightarrow> error + string" where
  "get_checksum sentence =
     (case checksum_loop 0 sentence of
        Inl e \<Rightarrow> Inl e
      | Inr checksum \<Rightarrow> Inr (format_02X checksum))"

text \<open>The XOR-fold of the code points, as the specification words it.\<close>

definition xor_fold :: "nat list \<Rightarrow> nat" where
  "xor_fold s = foldl (XOR) 0 s"

subsection \<open>NMEA coordinates and the GPGGA sentence\<close>

text \<open>
  \<^verbatim>\<open>'{0}'.format(int(degrees))\<close> prints an integer in decimal;
  \<^verbatim>\<open>'{1:09.6f}'\<close> rounds the exact value of the float to six decimals, ties to even,
  and pads with zeros to a width of at least nine. The subtraction and the multiplication
  by 60.0 are float operations, so each is followed by \<open>fl\<close>, as is the conversion of
  the floor to a float.
\<close>

definition digit_char :: "int \<Rightarrow> char" where
  "digit_char d = (''0123456789'' ! nat d)"

function show_digits :: "int \<Rightarrow> string" where
  "show_digits n =
     (if n < 10 then [digit_char n] else show_digits (n div 10) @ [digit_char (n mod 10)])"
  by pat_completeness auto
termination
  by (relation "measure nat") auto

declare show_digits.simps [simp del]

definition format_d :: "int \<Rightarrow> string" where
  "format_d i = (if i < 0 then CHR ''-'' # show_digits (- i) else show_digits i)"

definition fixed6 :: "rat \<Rightarrow> string" where
  "fixed6 y =
     (let n = round_half_even (y * 1000000)
      in show_digits (n div 1000000) @ ''.'' @ zero_pad 6 (show_digits (n mod 1000000)))"

definition format_09_6f :: "rat \<Rightarrow> string" where
  "format_09_6f y =
     (if y < 0 then CHR ''-'' # zero_pad 8 (fixed6 (- y)) else zero_pad 9 (fixed6 y))"

definition convert_latitude_to_nmea_format :: "rat \<Rightarrow> string" where
  "convert_latitude_to_nmea_format decimal_degree_latitude =
     (let unsigned_decimal_degree = \<bar>decimal_degree_latitude\<bar>;
          degrees = fl (of_int \<lfloor>unsigned_decimal_degree\<rfloor>);
          minutes = fl (unsigned_decimal_degree - degrees);
          cardinal = (if decimal_degree_latitude < 0 then CHR ''S'' else CHR ''N'')
      in format_d \<lfloor>degrees\<rfloor> @ format_09_6f (fl (minutes * 60)) @ '','' @ [cardinal])"

definition convert_longitude_to_nmea_format :: "rat \<Rightarrow> string" where
  "convert_longitude_to_nmea_format decimal_degree_longitude =
     (let unsigned_decimal_degree = \<bar>decimal_degree_longitude\<bar>;
          degrees = fl (of_int \<lfloor>unsigned_decimal_degree\<rfloor>);
          minutes = fl (unsigned_decimal_degree - degrees);
          cardinal = (if decimal_degree_longitude < 0 then CHR ''W'' else CHR ''E'')
      in format_d \<lfloor>degrees\<rfloor> @ format_09_6f (fl (minutes * 60)) @ '','' @ [cardinal])"

text \<open>
  The map centre of the source: the floats nearest to the decimal literals.
\<close>

definition LATITUDE :: rat where
  "LATITUDE = fl (33435 / 1000)"

definition LONGITUDE :: rat where
  "LONGITUDE = fl (- (11200833334 / 100000000))"

text \<open>
  \<^verbatim>\<open>datetime.datetime.now()\<close> is the naive local time: the UTC instant \<open>utc\<close> shifted
  by the offset \<open>zone\<close> of the machine's time zone, both in microseconds. \<^verbatim>\<open>strftime('%H%M%S')\<close>
  prints the hour, minute and second of the wall clock with two digits each.
\<close>

definition datetime_now :: "int \<Rightarrow> int \<Rightarrow> datetime" where
  "datetime_now utc zone = \<lparr>wall = utc + zone, utcoffset = None\<rparr>"

definition strftime_HMS :: "datetime \<Rightarrow> string" where
  "strftime_HMS t =
     zero_pad 2 (show_digits (wall t div 3600000000 mod 24)) @
     zero_pad 2 (show_digits (wall t div 60000000 mod 60)) @
     zero_pad 2 (show_digits (wall t div 1000000 mod 60))"

definition gpgga_body :: "string \<Rightarrow> string" where
  "gpgga_body current_time =
     ''GPGGA,'' @ current_time @ '','' @ convert_latitude_to_nmea_format LATITUDE @ '','' @
     convert_longitude_to_nmea_format LONGITUDE @ '',1,12,1.0,0.0,M,0.0,M,,''"

definition get_mock_gps_location_in_nmea_gpgga_format :: "int \<Rightarrow> int \<Rightarrow> error + string" where
  "get_mock_gps_location_in_nmea_gpgga_format utc zone =
     (let current_time = strftime_HMS (datetime_now utc zone);
          nmea = gpgga_body current_time
      in case get_checksum (map of_char nmea) of
           Inl e \<Rightarrow> Inl e
         | Inr checksum \<Rightarrow> Inr (''$'' @ nmea @ ''*'' @ checksum))"

text \<open>
  The decoding the specification speaks of, for a string
  \<^verbatim>\<open>{degrees}{minutes:09.6f},{hemisphere}\<close>: the nine characters before the comma are the
  minutes, the digits before them the degrees, and the value is degrees plus minutes over
  60, negated for the hemispheres S and W.
\<close>

definition decode_conceptually :: "string \<Rightarrow> rat" where
  "decode_conceptually s =
     (let body = takeWhile (\<lambda>c. c \<noteq> CHR '','') s;
          degrees = decimal (map digit_val (take (length body - 9) body));
          field = drop (length body - 9) body;
          minutes = of_int (decimal (map digit_val (take 2 field))) +
                    of_int (decimal (map digit_val (drop 3 field))) / 1000000;
          v = of_int degrees + minutes / 60
      in if last s = CHR ''S'' \<or> last s = CHR ''W'' then - v else v)"

section \<open>Properties\<close>

subsection \<open>Checksum\<close>

lemma xor_nat_less:
  fixes a b :: nat
  assumes "a < 2 ^ n" and "b < 2 ^ n"
  shows "a XOR b < 2 ^ n"
proof -
  have "take_bit n a = a" and "take_bit n b = b"
    using assms by (simp_all add: take_bit_nat_eq_self_iff)
  then have "a XOR b = take_bit n (a XOR b)"
    by (simp add: take_bit_xor)
  then show ?thesis
    by (metis take_bit_nat_less_exp)
qed

lemma foldl_xor_less:
  fixes acc :: nat
  assumes "acc < 2 ^ n" and "\<forall>c \<in> set s. c < 2 ^ n"
  shows "foldl (XOR) acc s < 2 ^ n"
  using assms by (induction s arbitrary: acc) (simp_all add: xor_nat_less)

lemma checksum_loop_small:
  assumes "acc < 256" and "\<forall>c \<in> set s. c < 256"
  shows "checksum_loop acc s = Inr (foldl (XOR) acc s)"
  using assms
proof (induction s arbitrary: acc)
  case Nil
  then show ?case by simp
next
  case (Cons c cs)
  have "acc XOR c < 2 ^ 8"
    using Cons.prems by (intro xor_nat_less) simp_all
  then have small: "acc XOR c < 256" by simp
  then have "chr_py (acc XOR c) = Inr (acc XOR c)"
    by (simp add: chr_py_def)
  with Cons.IH [OF small] Cons.prems show ?case by simp
qed

lemma hex_digit_0: "hex_digit 0 = CHR ''0''"
  by (simp add: hex_digit_def)

lemma format_02X_byte:
  assumes "n < 256"
  shows "format_02X n = [hex_digit (n div 16), hex_digit (n mod 16)]"
proof (cases "n < 16")
  case True
  then show ?thesis by (simp add: format_02X_def zero_pad_def hex_digit_0)
next
  case False
  with assms have "n div 16 < 16" by simp
  with False show ?thesis
    by (simp add: format_02X_def zero_pad_def)
qed

text \<open>
  C7, as the code has it. For every string whose code points are all below 256 (every
  ASCII sentence body is one), the checksum is the XOR-fold of the code points printed as
  exactly two upper-case hexadecimal digits, the high nibble first, zero-padded; the
  checksum of the empty string is \<open>00\<close>. The function is deterministic, being a function
  of its argument alone.
\<close>

theorem get_checksum_two_hex_digits:
  "(\<forall>c \<in> set s. c < 256) \<longrightarrow>
     xor_fold s < 256 \<and>
     get_checksum s = Inr [hex_digit (xor_fold s div 16), hex_digit (xor_fold s mod 16)]"
proof
  assume small: "\<forall>c \<in> set s. c < 256"
  have "foldl (XOR) (0::nat) s < 2 ^ 8"
    using small by (intro foldl_xor_less) simp_all
  then have bound: "xor_fold s < 256"
    by (simp add: xor_fold_def)
  have "checksum_loop 0 s = Inr (xor_fold s)"
    using small by (simp add: checksum_loop_small xor_fold_def)
  then show "xor_fold s < 256 \<and>
     get_checksum s = Inr [hex_digit (xor_fold s div 16), hex_digit (xor_fold s mod 16)]"
    using bound by (simp add: get_checksum_def format_02X_byte)
qed

theorem get_checksum_two_hex_digits_witness:
  "list_all (\<lambda>c. c < (256::nat)) [71, 80] \<and> get_checksum [71, 80] = Inr ''17''
   \<and> get_checksum [] = Inr ''00''"
  using get_checksum_two_hex_digits [of "[71, 80]"] get_checksum_two_hex_digits [of "[]"]
  by (simp add: xor_fold_def hex_digit_def)

text \<open>
  C7 as stated fails beyond code point 255: the euro sign (U+20AC) alone has the four-digit
  checksum \<open>20AC\<close>, and two code points whose XOR exceeds 0x10FFFF make \<^verbatim>\<open>chr\<close> raise.
\<close>

theorem get_checksum_counterexample:
  "get_checksum [0x20AC] = Inr ''20AC'' \<and> get_checksum [0x100000, 0xFFFFF] = Inl ValueError"
  by (simp add: get_checksum_def chr_py_def format_02X_def zero_pad_def hex_digit_def)

subsection \<open>The library instance\<close>

lemma cpython_sel [simp]:
  "py_float cpython = float_py" "str_isspace cpython = isspace" "str_strip cpython = strip"
  "datetime_fromisoformat cpython = fromisoformat"
  by (simp_all add: cpython_def)

subsection \<open>Rows and entries\<close>

lemma all_valid_fields:
  assumes "all_valid lib row"
  obtains i s la lo where "row ''isotime'' = Some i" "row ''source'' = Some s"
    "row ''latitude'' = Some la" "row ''longitude'' = Some lo" "iso_string_valid lib i"
  using assms unfolding all_valid_def Let_def
  by (auto split: option.splits)

lemma ingest_row_valid:
  assumes "all_valid lib row" and "row ''source'' = Some s"
  shows "\<exists>e. ingest_row lib row d = AList.update s e d \<and> source e = s
           \<and> Some (isotime e) = row ''isotime'' \<and> Some (latitude e) = row ''latitude''
           \<and> Some (longitude e) = row ''longitude''
           \<and> comment e = (case row ''comment'' of None \<Rightarrow> [] | Some c \<Rightarrow> str_strip lib c)
           \<and> iso_string_valid lib (isotime e)"
proof -
  from assms(1) obtain i s' la lo where f: "row ''isotime'' = Some i" "row ''source'' = Some s'"
    "row ''latitude'' = Some la" "row ''longitude'' = Some lo" "iso_string_valid lib i"
    by (rule all_valid_fields)
  let ?e = "\<lparr>isotime = i, source = s, latitude = la, longitude = lo,
             comment = (case row ''comment'' of None \<Rightarrow> [] | Some c \<Rightarrow> str_strip lib c)\<rparr>"
  have "ingest_row lib row d = AList.update s ?e d"
    using assms f by (simp add: ingest_row_def)
  with f show ?thesis by (intro exI [of _ ?e]) simp
qed

lemma ingest_row_cases:
  "ingest_row lib row d = d \<or> (\<exists>s e. ingest_row lib row d = AList.update s e d \<and> iso_string_valid lib (isotime e))"
proof (cases "all_valid lib row")
  case True
  then obtain i s la lo where f: "row ''isotime'' = Some i" "row ''source'' = Some s"
    "row ''latitude'' = Some la" "row ''longitude'' = Some lo" "iso_string_valid lib i"
    by (rule all_valid_fields)
  from ingest_row_valid [OF True f(2)] show ?thesis by blast
next
  case False
  then show ?thesis by (simp add: ingest_row_def)
qed

lemma set_update_subset: "set (AList.update k v al) \<subseteq> insert (k, v) (set al)"
  by (induction al) auto

lemma count_key_distinct:
  assumes "distinct (map fst al)" and "map_of al k = Some v"
  shows "length (filter (\<lambda>(k', e). k' = k) al) = 1"
  using assms
proof (induction al)
  case Nil
  then show ?case by simp
next
  case (Cons p al)
  obtain k' v' where p: "p = (k', v')" by (cases p)
  show ?case
  proof (cases "k' = k")
    case True
    with Cons.prems p have "k \<notin> fst ` set al" by simp
    then have "filter (\<lambda>(k', e). k' = k) al = []"
      by (force simp: filter_empty_conv)
    with True p show ?thesis by simp
  next
    case False
    with Cons p show ?thesis by simp
  qed
qed

subsection \<open>Timestamps of stored entries\<close>

lemma stamps_valid_update:
  "stamps_valid lib d \<Longrightarrow> iso_string_valid lib (isotime e) \<Longrightarrow> stamps_valid lib (AList.update k e d)"
  unfolding stamps_valid_def list_all_iff using set_update_subset [of k e d] by auto

lemma stamps_valid_ingest_row: "stamps_valid lib d \<Longrightarrow> stamps_valid lib (ingest_row lib row d)"
  using ingest_row_cases [of lib row d] by (auto simp: stamps_valid_update)

lemma stamps_valid_fold: "stamps_valid lib d \<Longrightarrow> stamps_valid lib (fold (ingest_row lib) rows d)"
  by (induction rows arbitrary: d) (simp_all add: stamps_valid_ingest_row)

lemma stamps_valid_refresh:
  "stamps_valid lib d \<Longrightarrow> stamps_valid lib (refresh_dictionary_from_dire_wolf_csv_log_file lib csv_file d)"
  by (simp add: refresh_dictionary_from_dire_wolf_csv_log_file_def stamps_valid_fold
      split: option.splits)

lemma remove_loop_subset:
  "remove_loop lib minutes clock i keys d = Inr d' \<Longrightarrow> set d' \<subseteq> set d"
proof (induction keys arbitrary: i d)
  case Nil
  then show ?case by simp
next
  case (Cons key keys)
  from Cons.prems obtain entry then' stale where
    "remove_loop lib minutes clock (Suc i) keys (if stale then AList.delete key d else d) = Inr d'"
    by (auto split: option.splits sum.splits)
  from Cons.IH [OF this] show ?case
    by (auto simp: AList.delete_eq split: if_splits)
qed

lemma stamps_valid_remove:
  "stamps_valid lib d \<Longrightarrow> remove_stale_entries_from_dictionary lib cfg clock d = Inr d' \<Longrightarrow> stamps_valid lib d'"
  unfolding remove_stale_entries_from_dictionary_def stamps_valid_def list_all_iff
  using remove_loop_subset by blast

lemma reachable_stamps_valid: "reachable lib d \<Longrightarrow> stamps_valid lib d"
proof (induction rule: reachable.induct)
  case reachable_empty
  then show ?case by (simp add: stamps_valid_def)
next
  case (reachable_refresh d csv_file)
  then show ?case by (simp add: stamps_valid_refresh)
next
  case (reachable_remove d cfg clock d')
  then show ?case using stamps_valid_remove by blast
qed

lemma older_than_no_ValueError: "older_than minutes t now \<noteq> Inl ValueError"
  by (auto simp: older_than_def timedelta_minutes_def dt_add_def dt_less_utc_def
      split: option.splits sum.splits if_splits)

lemma iso_string_valid_parse:
  "iso_string_valid lib s \<Longrightarrow> \<exists>t. datetime_fromisoformat lib (replace_Z s) = Inr t"
  by (auto simp: iso_string_valid_def split: sum.splits)

lemma remove_loop_no_ValueError:
  assumes "stamps_valid lib d"
  shows "remove_loop lib minutes clock i keys d \<noteq> Inl ValueError"
  using assms
proof (induction keys arbitrary: i d)
  case Nil
  then show ?case by simp
next
  case (Cons key keys)
  show ?case
  proof (cases "map_of d key")
    case None
    then show ?thesis by simp
  next
    case (Some entry)
    then have "(key, entry) \<in> set d" by (rule map_of_SomeD)
    with Cons.prems have "iso_string_valid lib (isotime entry)"
      by (auto simp: stamps_valid_def list_all_iff)
    then obtain t where t: "datetime_fromisoformat lib (replace_Z (isotime entry)) = Inr t"
      using iso_string_valid_parse by blast
    show ?thesis
    proof (cases "older_than minutes t (clock i)")
      case (Inl e)
      with older_than_no_ValueError [of minutes t "clock i"] Some t show ?thesis by simp
    next
      case (Inr stale)
      have "stamps_valid lib (if stale then AList.delete key d else d)"
        using Cons.prems by (auto simp: stamps_valid_def list_all_iff AList.delete_eq)
      from Cons.IH [OF this] Some t Inr show ?thesis by simp
    qed
  qed
qed

lemma poi_line_no_ValueError:
  "iso_string_valid lib (isotime e) \<Longrightarrow> poi_line lib cfg now e \<noteq> Inl ValueError"
  using older_than_no_ValueError
  by (auto simp: poi_line_def is_inactive_def dest!: iso_string_valid_parse split: sum.splits)

lemma write_entries_no_ValueError:
  "list_all (\<lambda>e. iso_string_valid lib (isotime e)) es \<Longrightarrow>
     snd (write_entries lib cfg clock i es f) \<noteq> Some ValueError"
proof (induction es arbitrary: i f)
  case Nil
  then show ?case by simp
next
  case (Cons e es)
  then show ?case
    using poi_line_no_ValueError [of lib e cfg "clock i"]
    by (cases "poi_line lib cfg (clock i) e") auto
qed

lemma set_sorted_poi_dictionary: "set (sorted_poi_dictionary d) = snd ` set d"
  by (simp add: sorted_poi_dictionary_def)

lemma refresh_navit_no_ValueError:
  assumes "stamps_valid lib d"
  shows "snd (refresh_navit_poi_file_from_dictionary lib cfg clock d file) \<noteq> Some ValueError"
proof -
  have "list_all (\<lambda>e. iso_string_valid lib (isotime e)) (sorted_poi_dictionary d)"
    using assms by (auto simp: list_all_iff set_sorted_poi_dictionary stamps_valid_def)
  then show ?thesis
    by (simp add: refresh_navit_poi_file_from_dictionary_def write_entries_no_ValueError)
qed

subsection \<open>Removal, rendering and order\<close>

lemma older_than_aware:
  assumes "timedelta_minutes m = Inr td" and "aware_in_range lib td (isotime e)"
  shows "\<exists>t. datetime_fromisoformat lib (replace_Z (isotime e)) = Inr t
           \<and> older_than (Some m) t now = Inr (past_threshold lib td now e)"
proof -
  from assms(2) obtain t off where t: "datetime_fromisoformat lib (replace_Z (isotime e)) = Inr t"
    and off: "utcoffset t = Some off" and r: "0 \<le> wall t + td" "wall t + td \<le> MAX_WALL"
    by (auto simp: aware_in_range_def split: sum.splits)
  have "older_than (Some m) t now = Inr (wall t + td - off < now)"
    using assms(1) off r by (simp add: older_than_def dt_add_def dt_less_utc_def)
  moreover have "past_threshold lib td now e = (wall t - off + td < now)"
    using t off by (simp add: past_threshold_def utc_instant_def)
  ultimately show ?thesis using t by (simp add: algebra_simps)
qed

lemma map_of_distinct_unique:
  assumes "distinct (map fst d)" and "map_of d k = Some v" and "(k, v') \<in> set d"
  shows "v' = v"
  using assms by (metis map_of_is_SomeI option.inject)

lemma remove_loop_filter:
  assumes "timedelta_minutes m = Inr td"
    and "distinct (map fst d)" and "distinct keys" and "set keys \<subseteq> fst ` set d"
    and "list_all (\<lambda>(k, e). aware_in_range lib td (isotime e)) d"
  shows "remove_loop lib (Some m) (\<lambda>_. now) i keys d =
         Inr (filter (\<lambda>(k, e). k \<in> set keys \<longrightarrow> \<not> past_threshold lib td now e) d)"
  using assms(2-)
proof (induction keys arbitrary: i d)
  case Nil
  then show ?case by simp
next
  case (Cons key keys)
  from Cons.prems(3) obtain entry where look: "map_of d key = Some entry"
    by (cases "map_of d key") (auto simp: map_of_eq_None_iff)
  then have mem: "(key, entry) \<in> set d" by (rule map_of_SomeD)
  with Cons.prems(4) have "aware_in_range lib td (isotime entry)"
    by (auto simp: list_all_iff)
  from older_than_aware [OF assms(1) this, of now] obtain t where
    t: "datetime_fromisoformat lib (replace_Z (isotime entry)) = Inr t"
    and o: "older_than (Some m) t now = Inr (past_threshold lib td now entry)" by blast
  let ?d = "if past_threshold lib td now entry then AList.delete key d else d"
  have step: "remove_loop lib (Some m) (\<lambda>_. now) i (key # keys) d =
              remove_loop lib (Some m) (\<lambda>_. now) (Suc i) keys ?d"
    using look t o by simp
  have fresh: "key \<notin> set keys" and dk: "distinct keys"
    using Cons.prems(2) by simp_all
  have d1: "distinct (map fst ?d)"
    using Cons.prems(1) by (simp add: distinct_delete)
  have d2: "set keys \<subseteq> fst ` set ?d"
    using Cons.prems(3) fresh by (force simp: AList.delete_eq)
  have d3: "list_all (\<lambda>(k, e). aware_in_range lib td (isotime e)) ?d"
    using Cons.prems(4) by (auto simp: list_all_iff AList.delete_eq)
  have uniq: "\<And>e. (key, e) \<in> set d \<Longrightarrow> e = entry"
    using map_of_distinct_unique [OF Cons.prems(1) look] by blast
  have "filter (\<lambda>(k, e). k \<in> set keys \<longrightarrow> \<not> past_threshold lib td now e) ?d =
        filter (\<lambda>(k, e). k \<in> set (key # keys) \<longrightarrow> \<not> past_threshold lib td now e) d"
  proof (cases "past_threshold lib td now entry")
    case True
    have "filter (\<lambda>(k, e). k \<in> set keys \<longrightarrow> \<not> past_threshold lib td now e) (AList.delete key d) =
          filter (\<lambda>(k, e). key \<noteq> k \<and> (k \<in> set keys \<longrightarrow> \<not> past_threshold lib td now e)) d"
      by (simp add: AList.delete_eq split_def conj_commute)
    also have "\<dots> = filter (\<lambda>(k, e). k \<in> set (key # keys) \<longrightarrow> \<not> past_threshold lib td now e) d"
      using True uniq by (intro filter_cong) auto
    finally show ?thesis using True by simp
  next
    case False
    have "filter (\<lambda>(k, e). k \<in> set keys \<longrightarrow> \<not> past_threshold lib td now e) d =
          filter (\<lambda>(k, e). k \<in> set (key # keys) \<longrightarrow> \<not> past_threshold lib td now e) d"
      using False uniq by (intro filter_cong) auto
    with False show ?thesis by simp
  qed
  with Cons.IH [OF d1 dk d2 d3, of "Suc i"] step show ?case by simp
qed

lemma remove_loop_disabled:
  assumes "set keys \<subseteq> fst ` set d" and "stamps_valid lib d"
  shows "remove_loop lib None clock i keys d = Inr d"
  using assms
proof (induction keys arbitrary: i)
  case Nil
  then show ?case by simp
next
  case (Cons key keys)
  from Cons.prems(1) obtain entry where look: "map_of d key = Some entry"
    by (cases "map_of d key") (auto simp: map_of_eq_None_iff)
  then have "(key, entry) \<in> set d" by (rule map_of_SomeD)
  with Cons.prems(2) have "iso_string_valid lib (isotime entry)"
    by (auto simp: stamps_valid_def list_all_iff)
  then obtain t where "datetime_fromisoformat lib (replace_Z (isotime entry)) = Inr t"
    using iso_string_valid_parse by blast
  with look Cons show ?case by (simp add: older_than_def)
qed

lemma write_entries_prefix:
  "\<exists>n\<le>length es.
     fst (write_entries lib cfg clock i es f) =
       f @ concat (map (line_at lib cfg clock) (take n (enumerate i es)))
     \<and> (snd (write_entries lib cfg clock i es f) = None) = (n = length es)"
proof (induction es arbitrary: i f)
  case Nil
  then show ?case by simp
next
  case (Cons e es)
  show ?case
  proof (cases "poi_line lib cfg (clock i) e")
    case (Inl err)
    then show ?thesis by (intro exI [of _ 0]) simp
  next
    case (Inr line)
    obtain n where n: "n \<le> length es \<and>
      fst (write_entries lib cfg clock (Suc i) es (f @ line)) =
         (f @ line) @ concat (map (line_at lib cfg clock) (take n (enumerate (Suc i) es)))
      \<and> (snd (write_entries lib cfg clock (Suc i) es (f @ line)) = None) = (n = length es)"
      using Cons [of "Suc i" "f @ line"] by (elim exE)
    have "line_at lib cfg clock (i, e) = line"
      using Inr by (simp add: line_at_def)
    with n Inr show ?thesis
      by (intro exI [of _ "Suc n"]) simp
  qed
qed


lemma sorted_poi_dictionary_mset: "mset (sorted_poi_dictionary d) = mset (map snd d)"
  by (simp add: sorted_poi_dictionary_def)

lemma sorted_poi_dictionary_descending:
  "sorted_wrt (\<lambda>a b. isotime b \<le> isotime a) (sorted_poi_dictionary d)"
proof -
  have "sorted (map isotime (sort_key isotime (rev (map snd d))))"
    by (rule sorted_sort_key)
  then have "sorted_wrt (\<lambda>a b. isotime a \<le> isotime b) (sort_key isotime (rev (map snd d)))"
    by (simp add: sorted_map)
  then show ?thesis
    by (simp add: sorted_poi_dictionary_def sorted_wrt_rev)
qed

lemma sorted_poi_dictionary_stable:
  "filter (\<lambda>e. isotime e = k) (sorted_poi_dictionary d) = filter (\<lambda>e. isotime e = k) (map snd d)"
proof -
  have "filter (\<lambda>e. isotime e = k) (sort_key isotime (rev (map snd d))) =
        filter (\<lambda>e. isotime e = k) (rev (map snd d))"
    by (rule sort_key_stable)
  then have "rev (filter (\<lambda>e. isotime e = k) (sort_key isotime (rev (map snd d)))) =
             rev (filter (\<lambda>e. isotime e = k) (rev (map snd d)))"
    by simp
  then show ?thesis
    by (simp add: sorted_poi_dictionary_def rev_filter del: rev_is_rev_conv)
qed

subsection \<open>Evaluations at concrete inputs\<close>

lemma latitude_33_1: "latitude_string_valid cpython ''33.1''" by code_simp
lemma latitude_33_2: "latitude_string_valid cpython ''33.2''" by code_simp
lemma longitude_33_1: "longitude_string_valid cpython ''33.1''" by code_simp
lemma longitude_33_2: "longitude_string_valid cpython ''33.2''" by code_simp
lemma longitude_500: "\<not> longitude_string_valid cpython ''500.0''" by code_simp

lemma parse_0000Z:
  "fromisoformat (replace_Z ''2024-01-01T00:00:00Z'') =
     Inr \<lparr>wall = 63839664000000000, utcoffset = Some 0\<rparr>"
  by code_simp

lemma parse_0002Z:
  "fromisoformat (replace_Z ''2024-01-01T00:02:00Z'') =
     Inr \<lparr>wall = 63839664120000000, utcoffset = Some 0\<rparr>"
  by code_simp

lemma parse_0010Z:
  "fromisoformat (replace_Z ''2024-01-01T00:10:00Z'') =
     Inr \<lparr>wall = 63839664600000000, utcoffset = Some 0\<rparr>"
  by code_simp

lemma parse_0100Z:
  "fromisoformat (replace_Z ''2024-01-01T01:00:00Z'') =
     Inr \<lparr>wall = 63839667600000000, utcoffset = Some 0\<rparr>"
  by code_simp

lemma parse_0500_plus5:
  "fromisoformat (replace_Z ''2024-01-01T05:00:00+05:00'') =
     Inr \<lparr>wall = 63839682000000000, utcoffset = Some 18000000000\<rparr>"
  by code_simp

lemma parse_naive:
  "fromisoformat (replace_Z ''2024-01-01T00:00:00'') =
     Inr \<lparr>wall = 63839664000000000, utcoffset = None\<rparr>"
  by code_simp

lemmas parses = parse_0000Z parse_0002Z parse_0010Z parse_0100Z parse_0500_plus5 parse_naive

lemma csv_row_fields:
  "csv_row i s la lo c ''isotime'' = Some i"
  "csv_row i s la lo c ''source'' = Some s"
  "csv_row i s la lo c ''latitude'' = Some la"
  "csv_row i s la lo c ''longitude'' = Some lo"
  "csv_row i s la lo c ''comment'' = Some c"
  by (simp_all add: csv_row_def)

lemma all_valid_csv_row:
  "all_valid lib (csv_row i s la lo c) =
     (s \<noteq> ''source'' \<and> \<not> str_isspace lib s \<and> latitude_string_valid lib la \<and> longitude_string_valid lib la
      \<and> iso_string_valid lib i)"
  by (simp add: all_valid_def csv_row_fields)

lemma ingest_csv_row:
  "ingest_row lib (csv_row i s la lo c) d =
     (if all_valid lib (csv_row i s la lo c)
      then AList.update s \<lparr>isotime = i, source = s, latitude = la, longitude = lo,
                             comment = str_strip lib c\<rparr> d
      else d)"
  by (simp add: ingest_row_def csv_row_fields)

lemma not_isspace_N0CALL: "\<not> isspace ''N0CALL''" "\<not> isspace ''W1AW''"
  by code_simp+

lemma strip_examples:
  "strip '' test '' = ''test''" "strip ''first'' = ''first''" "strip ''test'' = ''test''"
  "strip [] = []"
  by code_simp+

lemma iso_valid_examples:
  "iso_string_valid cpython ''2024-01-01T00:00:00Z''" "iso_string_valid cpython ''2024-01-01T00:02:00Z''"
  "iso_string_valid cpython ''2024-01-01T00:10:00Z''" "iso_string_valid cpython ''2024-01-01T00:00:00''"
  "iso_string_valid cpython ''2024-01-01T01:00:00Z''" "iso_string_valid cpython ''2024-01-01T05:00:00+05:00''"
  by (simp_all add: iso_string_valid_def parses)

subsection \<open>Ingest\<close>

text \<open>
  C1. The claim: a row is stored only if its longitude string parses as a number strictly
  between -180 and 180. The code passes the latitude string to the longitude check, so the
  longitude is never examined: the row below, with longitude \<open>500.0\<close>, is stored.
\<close>

theorem longitude_not_checked:
  "\<not> longitude_string_valid cpython ''500.0'' \<and>
   refresh_dictionary_from_dire_wolf_csv_log_file cpython
     (Some [csv_row ''2024-01-01T00:00:00Z'' ''W1AW'' ''33.1'' ''500.0'' []]) [] =
   [(''W1AW'', \<lparr>isotime = ''2024-01-01T00:00:00Z'', source = ''W1AW'', latitude = ''33.1'',
                longitude = ''500.0'', comment = []\<rparr>)]"
  by (simp add: refresh_dictionary_from_dire_wolf_csv_log_file_def ingest_csv_row
      all_valid_csv_row longitude_500 latitude_33_1 longitude_33_1 iso_valid_examples
      not_isspace_N0CALL strip_examples)

text \<open>
  C2. Whatever the library takes for a number, a date and white space: two rows that pass
  the validation and have the same source, read in file order into a dictionary, leave
  exactly one entry for that source; it holds the second row's timestamp, latitude and
  longitude and its comment as \<^verbatim>\<open>str.strip\<close> returns it, whatever the two timestamps are.
\<close>

theorem last_write_wins:
  assumes "all_valid lib r1" and "all_valid lib r2"
    and "r1 ''source'' = Some s" and "r2 ''source'' = Some s"
    and "distinct (map fst d)"
  shows "\<exists>e. map_of (refresh_dictionary_from_dire_wolf_csv_log_file lib (Some [r1, r2]) d) s = Some e
        \<and> length (filter (\<lambda>(k, e). k = s)
             (refresh_dictionary_from_dire_wolf_csv_log_file lib (Some [r1, r2]) d)) = 1
        \<and> source e = s
        \<and> Some (isotime e) = r2 ''isotime'' \<and> Some (latitude e) = r2 ''latitude''
        \<and> Some (longitude e) = r2 ''longitude''
        \<and> comment e = (case r2 ''comment'' of None \<Rightarrow> [] | Some c \<Rightarrow> str_strip lib c)"
proof -
  obtain e1 where e1: "ingest_row lib r1 d = AList.update s e1 d"
    using ingest_row_valid [OF assms(1) assms(3)] by blast
  obtain e2 where e2: "ingest_row lib r2 (AList.update s e1 d) = AList.update s e2 (AList.update s e1 d)"
    and f: "source e2 = s" "Some (isotime e2) = r2 ''isotime''" "Some (latitude e2) = r2 ''latitude''"
      "Some (longitude e2) = r2 ''longitude''"
      "comment e2 = (case r2 ''comment'' of None \<Rightarrow> [] | Some c \<Rightarrow> str_strip lib c)"
    using ingest_row_valid [OF assms(2) assms(4)] by blast
  let ?d = "refresh_dictionary_from_dire_wolf_csv_log_file lib (Some [r1, r2]) d"
  have d: "?d = AList.update s e2 (AList.update s e1 d)"
    by (simp add: refresh_dictionary_from_dire_wolf_csv_log_file_def e1 e2)
  have dist: "distinct (map fst ?d)"
    using assms(5) by (simp add: d distinct_update)
  have look: "map_of ?d s = Some e2"
    by (simp add: d update_conv')
  from count_key_distinct [OF dist look] look f show ?thesis by blast
qed

theorem last_write_wins_witness:
  "all_valid cpython (csv_row ''2024-01-01T00:10:00Z'' ''N0CALL'' ''33.1'' ''-112.1'' ''first'')
   \<and> all_valid cpython (csv_row ''2024-01-01T00:00:00Z'' ''N0CALL'' ''33.2'' ''-112.1'' '' test '')
   \<and> (\<exists>e. map_of (refresh_dictionary_from_dire_wolf_csv_log_file cpython
          (Some [csv_row ''2024-01-01T00:10:00Z'' ''N0CALL'' ''33.1'' ''-112.1'' ''first'',
                 csv_row ''2024-01-01T00:00:00Z'' ''N0CALL'' ''33.2'' ''-112.1'' '' test '']) [])
          ''N0CALL'' = Some e
        \<and> isotime e = ''2024-01-01T00:00:00Z'' \<and> latitude e = ''33.2''
        \<and> longitude e = ''-112.1'' \<and> comment e = ''test'')"
proof -
  let ?r1 = "csv_row ''2024-01-01T00:10:00Z'' ''N0CALL'' ''33.1'' ''-112.1'' ''first''"
  let ?r2 = "csv_row ''2024-01-01T00:00:00Z'' ''N0CALL'' ''33.2'' ''-112.1'' '' test ''"
  have v1: "all_valid cpython ?r1"
    by (simp add: all_valid_csv_row latitude_33_1 longitude_33_1 iso_valid_examples
        not_isspace_N0CALL)
  have v2: "all_valid cpython ?r2"
    by (simp add: all_valid_csv_row latitude_33_2 longitude_33_2 iso_valid_examples
        not_isspace_N0CALL)
  have s1: "?r1 ''source'' = Some ''N0CALL''" and s2: "?r2 ''source'' = Some ''N0CALL''"
    by (simp_all add: csv_row_fields)
  have "distinct (map fst ([] :: poi_dictionary))" by simp
  from last_write_wins [OF v1 v2 s1 s2 this] v1 v2 show ?thesis
    by (auto simp: csv_row_fields strip_examples)
qed

subsection \<open>Stored timestamps\<close>

text \<open>
  C10. Every entry of a dictionary reachable from the empty one by reading logs and removing
  stale entries carries a timestamp that, after the replacement of \<open>Z\<close> by \<open>+00:00\<close>, is
  accepted by the library's parser; so neither the removal nor the writing of the POI file
  ever raises the parser's ValueError on it.
\<close>

theorem stored_timestamps_parse:
  assumes "reachable lib d"
  shows "list_all (\<lambda>(k, e). \<exists>t. datetime_fromisoformat lib (replace_Z (isotime e)) = Inr t) d
    \<and> remove_stale_entries_from_dictionary lib cfg clock d \<noteq> Inl ValueError
    \<and> snd (refresh_navit_poi_file_from_dictionary lib cfg clock d navit_poi_file) \<noteq> Some ValueError"
proof -
  have v: "stamps_valid lib d"
    using assms by (rule reachable_stamps_valid)
  then have "list_all (\<lambda>(k, e). \<exists>t. datetime_fromisoformat lib (replace_Z (isotime e)) = Inr t) d"
    by (auto simp: stamps_valid_def list_all_iff dest: iso_string_valid_parse)
  moreover have "remove_stale_entries_from_dictionary lib cfg clock d \<noteq> Inl ValueError"
    using v by (simp add: remove_stale_entries_from_dictionary_def remove_loop_no_ValueError)
  moreover have
    "snd (refresh_navit_poi_file_from_dictionary lib cfg clock d navit_poi_file) \<noteq> Some ValueError"
    using v by (rule refresh_navit_no_ValueError)
  ultimately show ?thesis by simp
qed

lemma refresh_one_row:
  "refresh_dictionary_from_dire_wolf_csv_log_file cpython
     (Some [csv_row ''2024-01-01T00:00:00Z'' ''N0CALL'' ''33.1'' ''-112.1'' '' test '']) [] =
   [(''N0CALL'', \<lparr>isotime = ''2024-01-01T00:00:00Z'', source = ''N0CALL'', latitude = ''33.1'',
                  longitude = ''-112.1'', comment = ''test''\<rparr>)]"
  by (simp add: refresh_dictionary_from_dire_wolf_csv_log_file_def ingest_csv_row
      all_valid_csv_row latitude_33_1 longitude_33_1 iso_valid_examples
      not_isspace_N0CALL strip_examples)

theorem stored_timestamps_parse_witness:
  "reachable cpython [(''N0CALL'', \<lparr>isotime = ''2024-01-01T00:00:00Z'', source = ''N0CALL'',
                latitude = ''33.1'', longitude = ''-112.1'', comment = ''test''\<rparr>)]
   \<and> remove_stale_entries_from_dictionary cpython default_config (\<lambda>i. 63839664360000000)
        [(''N0CALL'', \<lparr>isotime = ''2024-01-01T00:00:00Z'', source = ''N0CALL'',
                latitude = ''33.1'', longitude = ''-112.1'', comment = ''test''\<rparr>)]
       \<noteq> Inl ValueError"
proof -
  have "reachable cpython (refresh_dictionary_from_dire_wolf_csv_log_file cpython
     (Some [csv_row ''2024-01-01T00:00:00Z'' ''N0CALL'' ''33.1'' ''-112.1'' '' test '']) [])"
    using reachable_empty by (rule reachable_refresh)
  then have r: "reachable cpython [(''N0CALL'', \<lparr>isotime = ''2024-01-01T00:00:00Z'', source = ''N0CALL'',
                latitude = ''33.1'', longitude = ''-112.1'', comment = ''test''\<rparr>)]"
    by (simp only: refresh_one_row)
  from stored_timestamps_parse [OF r, where cfg = default_config and clock = "\<lambda>i. 63839664360000000"] r
  show ?thesis by simp
qed

subsection \<open>Removal of stale entries\<close>

text \<open>
  Where every timestamp carries a UTC offset, the removal is the specified one. With a
  removal threshold of \<open>m\<close> minutes, for a dictionary whose timestamps all carry an offset
  and stay within the years 1 to 9999 when the threshold is added, the removal at the
  instant \<open>now\<close> keeps exactly the entries whose timestamp plus the threshold is not before
  \<open>now\<close>. With the threshold disabled the removal leaves every dictionary of validated
  timestamps unchanged, at any clock.
\<close>

lemma remove_exactly_the_stale:
  "(MINUTES_UNTIL_APRS_REMOVED cfg = Some m \<and> timedelta_minutes m = Inr td
      \<and> distinct (map fst d) \<and> list_all (\<lambda>(k, e). aware_in_range lib td (isotime e)) d
    \<longrightarrow> remove_stale_entries_from_dictionary lib cfg (\<lambda>i. now) d =
          Inr (filter (\<lambda>(k, e). \<not> past_threshold lib td now e) d))
   \<and> (MINUTES_UNTIL_APRS_REMOVED cfg = None \<and> stamps_valid lib d
    \<longrightarrow> remove_stale_entries_from_dictionary lib cfg clock d = Inr d)"
proof (intro conjI impI)
  assume a: "MINUTES_UNTIL_APRS_REMOVED cfg = Some m \<and> timedelta_minutes m = Inr td
      \<and> distinct (map fst d) \<and> list_all (\<lambda>(k, e). aware_in_range lib td (isotime e)) d"
  have "distinct (map fst d)" using a by simp
  then have dk: "distinct (map fst d)" .
  have "remove_loop lib (Some m) (\<lambda>i. now) 0 (map fst d) d =
        Inr (filter (\<lambda>(k, e). k \<in> set (map fst d) \<longrightarrow> \<not> past_threshold lib td now e) d)"
    using a by (intro remove_loop_filter) simp_all
  also have "filter (\<lambda>(k, e). k \<in> set (map fst d) \<longrightarrow> \<not> past_threshold lib td now e) d =
             filter (\<lambda>(k, e). \<not> past_threshold lib td now e) d"
    by (intro filter_cong) force+
  finally show "remove_stale_entries_from_dictionary lib cfg (\<lambda>i. now) d =
          Inr (filter (\<lambda>(k, e). \<not> past_threshold lib td now e) d)"
    using a by (simp add: remove_stale_entries_from_dictionary_def)
next
  assume "MINUTES_UNTIL_APRS_REMOVED cfg = None \<and> stamps_valid lib d"
  then show "remove_stale_entries_from_dictionary lib cfg clock d = Inr d"
    by (simp add: remove_stale_entries_from_dictionary_def remove_loop_disabled)
qed

lemma timedelta_examples:
  "timedelta_minutes 60 = Inr 3600000000" "timedelta_minutes 5 = Inr 300000000"
  by (simp_all add: timedelta_minutes_def)

lemma aware_examples:
  "aware_in_range cpython 3600000000 ''2024-01-01T00:00:00Z''"
  "aware_in_range cpython 3600000000 ''2024-01-01T00:02:00Z''"
  "aware_in_range cpython 300000000 ''2024-01-01T00:00:00Z''"
  "aware_in_range cpython 300000000 ''2024-01-01T01:00:00Z''"
  "aware_in_range cpython 300000000 ''2024-01-01T05:00:00+05:00''"
  by (simp_all add: aware_in_range_def parses MAX_WALL_def)

lemma utc_instant_examples:
  "utc_instant cpython ''2024-01-01T00:00:00Z'' = Some 63839664000000000"
  "utc_instant cpython ''2024-01-01T00:02:00Z'' = Some 63839664120000000"
  "utc_instant cpython ''2024-01-01T01:00:00Z'' = Some 63839667600000000"
  "utc_instant cpython ''2024-01-01T05:00:00+05:00'' = Some 63839664000000000"
  "utc_instant cpython ''2024-01-01T00:00:00'' = None"
  by (simp_all add: utc_instant_def parses)

lemma remove_exactly_the_stale_example:
  "timedelta_minutes 60 = Inr 3600000000
   \<and> list_all (\<lambda>(k, e). aware_in_range cpython 3600000000 (isotime e))
       [(''N0CALL'', \<lparr>isotime = ''2024-01-01T00:00:00Z'', source = ''N0CALL'',
                      latitude = ''33.1'', longitude = ''-112.1'', comment = ''test''\<rparr>),
        (''W1AW'', \<lparr>isotime = ''2024-01-01T00:02:00Z'', source = ''W1AW'',
                    latitude = ''33.2'', longitude = ''-112.1'', comment = []\<rparr>)]
   \<and> remove_stale_entries_from_dictionary cpython default_config (\<lambda>i. 63839667660000000)
       [(''N0CALL'', \<lparr>isotime = ''2024-01-01T00:00:00Z'', source = ''N0CALL'',
                      latitude = ''33.1'', longitude = ''-112.1'', comment = ''test''\<rparr>),
        (''W1AW'', \<lparr>isotime = ''2024-01-01T00:02:00Z'', source = ''W1AW'',
                    latitude = ''33.2'', longitude = ''-112.1'', comment = []\<rparr>)] =
     Inr [(''W1AW'', \<lparr>isotime = ''2024-01-01T00:02:00Z'', source = ''W1AW'',
                    latitude = ''33.2'', longitude = ''-112.1'', comment = []\<rparr>)]
   \<and> remove_stale_entries_from_dictionary cpython
       (default_config\<lparr>MINUTES_UNTIL_APRS_REMOVED := None\<rparr>) (\<lambda>i. 63839667660000000)
       [(''N0CALL'', \<lparr>isotime = ''2024-01-01T00:00:00Z'', source = ''N0CALL'',
                      latitude = ''33.1'', longitude = ''-112.1'', comment = ''test''\<rparr>),
        (''W1AW'', \<lparr>isotime = ''2024-01-01T00:02:00Z'', source = ''W1AW'',
                    latitude = ''33.2'', longitude = ''-112.1'', comment = []\<rparr>)] =
     Inr [(''N0CALL'', \<lparr>isotime = ''2024-01-01T00:00:00Z'', source = ''N0CALL'',
                      latitude = ''33.1'', longitude = ''-112.1'', comment = ''test''\<rparr>),
        (''W1AW'', \<lparr>isotime = ''2024-01-01T00:02:00Z'', source = ''W1AW'',
                    latitude = ''33.2'', longitude = ''-112.1'', comment = []\<rparr>)]"
proof -
  let ?d = "[(''N0CALL'', \<lparr>isotime = ''2024-01-01T00:00:00Z'', source = ''N0CALL'',
                      latitude = ''33.1'', longitude = ''-112.1'', comment = ''test''\<rparr>),
        (''W1AW'', \<lparr>isotime = ''2024-01-01T00:02:00Z'', source = ''W1AW'',
                    latitude = ''33.2'', longitude = ''-112.1'', comment = []\<rparr>)]"
  have aware: "list_all (\<lambda>(k, e). aware_in_range cpython 3600000000 (isotime e)) ?d"
    by (simp add: aware_examples)
  have valid: "stamps_valid cpython ?d"
    by (simp add: stamps_valid_def iso_valid_examples)
  have keys: "distinct (map fst ?d)" by simp
  have on: "MINUTES_UNTIL_APRS_REMOVED default_config = Some 60"
    and off: "MINUTES_UNTIL_APRS_REMOVED (default_config\<lparr>MINUTES_UNTIL_APRS_REMOVED := None\<rparr>) = None"
    by (simp_all add: default_config_def)
  have "remove_stale_entries_from_dictionary cpython default_config (\<lambda>i. 63839667660000000) ?d =
          Inr (filter (\<lambda>(k, e). \<not> past_threshold cpython 3600000000 63839667660000000 e) ?d)"
    using remove_exactly_the_stale [where lib = cpython and cfg = default_config and m = 60
        and td = 3600000000 and d = ?d and now = 63839667660000000]
      on timedelta_examples(1) keys aware by blast
  moreover have "remove_stale_entries_from_dictionary cpython
       (default_config\<lparr>MINUTES_UNTIL_APRS_REMOVED := None\<rparr>) (\<lambda>i. 63839667660000000) ?d = Inr ?d"
    using remove_exactly_the_stale
      [where lib = cpython and cfg = "default_config\<lparr>MINUTES_UNTIL_APRS_REMOVED := None\<rparr>"
        and d = ?d and clock = "\<lambda>i. 63839667660000000"]
      off valid by blast
  ultimately show ?thesis
    using aware by (simp add: timedelta_examples past_threshold_def utc_instant_examples)
qed

text \<open>
  C3. The claim: for every store the removal removes exactly the entries whose timestamp
  plus the threshold is before \<open>now\<close>. The validator accepts a timestamp without an offset,
  so the row below is stored. The removal then compares the naive date-time with \<open>now\<close>,
  which the code makes aware "so we compare apples to apples", and Python raises TypeError:
  the entry, 61 minutes old under the threshold of 60 minutes, is not removed, and nothing
  catches the exception.
\<close>

theorem remove_raises_on_timestamp_without_offset:
  "refresh_dictionary_from_dire_wolf_csv_log_file cpython
     (Some [csv_row ''2024-01-01T00:00:00'' ''W1AW'' ''33.1'' ''-112.1'' []]) [] =
     [(''W1AW'', \<lparr>isotime = ''2024-01-01T00:00:00'', source = ''W1AW'', latitude = ''33.1'',
                  longitude = ''-112.1'', comment = []\<rparr>)]
   \<and> remove_stale_entries_from_dictionary cpython default_config (\<lambda>i. 63839667660000000)
     [(''W1AW'', \<lparr>isotime = ''2024-01-01T00:00:00'', source = ''W1AW'', latitude = ''33.1'',
                  longitude = ''-112.1'', comment = []\<rparr>)] = Inl TypeError"
  by (simp add: refresh_dictionary_from_dire_wolf_csv_log_file_def ingest_csv_row
      all_valid_csv_row latitude_33_1 longitude_33_1 iso_valid_examples
      not_isspace_N0CALL strip_examples remove_stale_entries_from_dictionary_def
      default_config_def parses older_than_def timedelta_minutes_def dt_add_def
      dt_less_utc_def MAX_WALL_def)

subsection \<open>Active and inactive entries\<close>

text \<open>
  Where the timestamp carries a UTC offset, the classification is the specified one. With
  an inactivity threshold of \<open>m\<close> minutes, an entry whose timestamp carries an offset and
  stays within the years 1 to 9999 when the threshold is added is written with the inactive
  icon if its timestamp plus the threshold is before \<open>now\<close>, and with the active icon
  otherwise. With the threshold disabled every entry with a validated timestamp is written
  with the active icon.
\<close>

lemma inactive_iff_past_threshold:
  "(MINUTES_UNTIL_APRS_INACTIVE cfg = Some m \<and> timedelta_minutes m = Inr td
      \<and> aware_in_range lib td (isotime e)
    \<longrightarrow> poi_line lib cfg now e =
          Inr (poi_format lib cfg e
                 (if past_threshold lib td now e then NAVIT_POI_INACTIVE_ICON_FILE_PATH
                  else NAVIT_POI_ACTIVE_ICON_FILE_PATH)))
   \<and> (MINUTES_UNTIL_APRS_INACTIVE cfg = None \<and> iso_string_valid lib (isotime e)
    \<longrightarrow> poi_line lib cfg now e = Inr (poi_format lib cfg e NAVIT_POI_ACTIVE_ICON_FILE_PATH))"
proof (intro conjI impI)
  assume a: "MINUTES_UNTIL_APRS_INACTIVE cfg = Some m \<and> timedelta_minutes m = Inr td
      \<and> aware_in_range lib td (isotime e)"
  then obtain t where "datetime_fromisoformat lib (replace_Z (isotime e)) = Inr t"
    and "older_than (Some m) t now = Inr (past_threshold lib td now e)"
    using older_than_aware [of m td lib e now] by blast
  with a show "poi_line lib cfg now e =
          Inr (poi_format lib cfg e
                 (if past_threshold lib td now e then NAVIT_POI_INACTIVE_ICON_FILE_PATH
                  else NAVIT_POI_ACTIVE_ICON_FILE_PATH))"
    by (simp add: poi_line_def is_inactive_def)
next
  assume a: "MINUTES_UNTIL_APRS_INACTIVE cfg = None \<and> iso_string_valid lib (isotime e)"
  then obtain t where "datetime_fromisoformat lib (replace_Z (isotime e)) = Inr t"
    using iso_string_valid_parse by blast
  with a show "poi_line lib cfg now e = Inr (poi_format lib cfg e NAVIT_POI_ACTIVE_ICON_FILE_PATH)"
    by (simp add: poi_line_def is_inactive_def older_than_def)
qed

lemma inactive_iff_past_threshold_example:
  "timedelta_minutes 5 = Inr 300000000
   \<and> aware_in_range cpython 300000000 ''2024-01-01T00:00:00Z''
   \<and> past_threshold cpython 300000000 63839664360000000
        \<lparr>isotime = ''2024-01-01T00:00:00Z'', source = ''N0CALL'', latitude = ''33.1'',
         longitude = ''-112.1'', comment = ''test''\<rparr>
   \<and> poi_line cpython default_config 63839664360000000
        \<lparr>isotime = ''2024-01-01T00:00:00Z'', source = ''N0CALL'', latitude = ''33.1'',
         longitude = ''-112.1'', comment = ''test''\<rparr> =
      Inr (poi_format cpython default_config
        \<lparr>isotime = ''2024-01-01T00:00:00Z'', source = ''N0CALL'', latitude = ''33.1'',
         longitude = ''-112.1'', comment = ''test''\<rparr> NAVIT_POI_INACTIVE_ICON_FILE_PATH)
   \<and> poi_line cpython (default_config\<lparr>MINUTES_UNTIL_APRS_INACTIVE := None\<rparr>) 63839664360000000
        \<lparr>isotime = ''2024-01-01T00:00:00Z'', source = ''N0CALL'', latitude = ''33.1'',
         longitude = ''-112.1'', comment = ''test''\<rparr> =
      Inr (poi_format cpython (default_config\<lparr>MINUTES_UNTIL_APRS_INACTIVE := None\<rparr>)
        \<lparr>isotime = ''2024-01-01T00:00:00Z'', source = ''N0CALL'', latitude = ''33.1'',
         longitude = ''-112.1'', comment = ''test''\<rparr> NAVIT_POI_ACTIVE_ICON_FILE_PATH)"
proof -
  let ?e = "\<lparr>isotime = ''2024-01-01T00:00:00Z'', source = ''N0CALL'', latitude = ''33.1'',
         longitude = ''-112.1'', comment = ''test''\<rparr>"
  have past: "past_threshold cpython 300000000 63839664360000000 ?e"
    by (simp add: past_threshold_def utc_instant_examples)
  have aware: "aware_in_range cpython 300000000 (isotime ?e)"
    by (simp add: aware_examples)
  have valid: "iso_string_valid cpython (isotime ?e)"
    by (simp add: iso_valid_examples)
  have on: "MINUTES_UNTIL_APRS_INACTIVE default_config = Some 5"
    and off: "MINUTES_UNTIL_APRS_INACTIVE (default_config\<lparr>MINUTES_UNTIL_APRS_INACTIVE := None\<rparr>) = None"
    by (simp_all add: default_config_def)
  have "poi_line cpython default_config 63839664360000000 ?e =
      Inr (poi_format cpython default_config ?e
             (if past_threshold cpython 300000000 63839664360000000 ?e
              then NAVIT_POI_INACTIVE_ICON_FILE_PATH else NAVIT_POI_ACTIVE_ICON_FILE_PATH))"
    using inactive_iff_past_threshold [where lib = cpython and cfg = default_config and m = 5
        and td = 300000000 and e = ?e and now = 63839664360000000]
      on timedelta_examples(2) aware by blast
  moreover have "poi_line cpython (default_config\<lparr>MINUTES_UNTIL_APRS_INACTIVE := None\<rparr>)
        63839664360000000 ?e =
      Inr (poi_format cpython (default_config\<lparr>MINUTES_UNTIL_APRS_INACTIVE := None\<rparr>) ?e
             NAVIT_POI_ACTIVE_ICON_FILE_PATH)"
    using inactive_iff_past_threshold
      [where lib = cpython and cfg = "default_config\<lparr>MINUTES_UNTIL_APRS_INACTIVE := None\<rparr>"
        and e = ?e and now = 63839664360000000]
      off valid by blast
  ultimately show ?thesis
    using past aware by (simp add: timedelta_examples)
qed

text \<open>
  C9. The claim: every stored entry is classified as inactive or as active, by its timestamp
  plus the threshold. The entry below is stored, its timestamp having passed the validator,
  and is six minutes old under the threshold of five minutes; the serializer compares its
  naive date-time with the aware \<open>now\<close>, Python raises TypeError, and the entry gets no
  icon and no line.
\<close>

theorem poi_line_raises_on_timestamp_without_offset:
  "refresh_dictionary_from_dire_wolf_csv_log_file cpython
     (Some [csv_row ''2024-01-01T00:00:00'' ''W1AW'' ''33.1'' ''-112.1'' []]) [] =
     [(''W1AW'', \<lparr>isotime = ''2024-01-01T00:00:00'', source = ''W1AW'', latitude = ''33.1'',
                  longitude = ''-112.1'', comment = []\<rparr>)]
   \<and> poi_line cpython default_config 63839664360000000
       \<lparr>isotime = ''2024-01-01T00:00:00'', source = ''W1AW'', latitude = ''33.1'',
        longitude = ''-112.1'', comment = []\<rparr> = Inl TypeError"
  by (simp add: refresh_dictionary_from_dire_wolf_csv_log_file_def ingest_csv_row
      all_valid_csv_row latitude_33_1 longitude_33_1 iso_valid_examples
      not_isspace_N0CALL strip_examples poi_line_def is_inactive_def
      default_config_def parses older_than_def timedelta_minutes_def dt_add_def
      dt_less_utc_def MAX_WALL_def)

subsection \<open>Order of the POI file\<close>

text \<open>
  C5, as the code has it. The sorted list is a permutation of the entries, descending in
  the order of the timestamp strings, and entries with equal timestamp strings keep their
  relative order; when the pass raises nothing, the file is the lines of the entries of the
  sorted list, one per entry, in that order.
\<close>

theorem written_in_descending_string_order:
  "mset (sorted_poi_dictionary d) = mset (map snd d)
   \<and> sorted_wrt (\<lambda>a b. isotime b \<le> isotime a) (sorted_poi_dictionary d)
   \<and> filter (\<lambda>e. isotime e = k) (sorted_poi_dictionary d) =
       filter (\<lambda>e. isotime e = k) (map snd d)
   \<and> (snd (refresh_navit_poi_file_from_dictionary lib cfg clock d navit_poi_file) = None \<longrightarrow>
       fst (refresh_navit_poi_file_from_dictionary lib cfg clock d navit_poi_file) =
         concat (map (line_at lib cfg clock) (enumerate 0 (sorted_poi_dictionary d))))"
proof -
  obtain n where n: "n \<le> length (sorted_poi_dictionary d) \<and>
      fst (write_entries lib cfg clock 0 (sorted_poi_dictionary d) []) =
        [] @ concat (map (line_at lib cfg clock) (take n (enumerate 0 (sorted_poi_dictionary d))))
      \<and> (snd (write_entries lib cfg clock 0 (sorted_poi_dictionary d) []) = None) =
          (n = length (sorted_poi_dictionary d))"
    using write_entries_prefix [of "sorted_poi_dictionary d" lib cfg clock 0 "[]"] by (elim exE)
  have "snd (refresh_navit_poi_file_from_dictionary lib cfg clock d navit_poi_file) = None \<longrightarrow>
       fst (refresh_navit_poi_file_from_dictionary lib cfg clock d navit_poi_file) =
         concat (map (line_at lib cfg clock) (enumerate 0 (sorted_poi_dictionary d)))"
    using n by (simp add: refresh_navit_poi_file_from_dictionary_def)
  then show ?thesis
    using sorted_poi_dictionary_mset [of d] sorted_poi_dictionary_descending [of d]
      sorted_poi_dictionary_stable [of k d] by blast
qed

lemma sorted_two:
  "sorted_poi_dictionary
     [(''N0CALL'', \<lparr>isotime = ''2024-01-01T01:00:00Z'', source = ''N0CALL'',
                    latitude = ''33.1'', longitude = ''-112.1'', comment = ''test''\<rparr>),
      (''W1AW'', \<lparr>isotime = ''2024-01-01T05:00:00+05:00'', source = ''W1AW'',
                  latitude = ''33.2'', longitude = ''-112.1'', comment = []\<rparr>)] =
     [\<lparr>isotime = ''2024-01-01T05:00:00+05:00'', source = ''W1AW'',
       latitude = ''33.2'', longitude = ''-112.1'', comment = []\<rparr>,
      \<lparr>isotime = ''2024-01-01T01:00:00Z'', source = ''N0CALL'',
       latitude = ''33.1'', longitude = ''-112.1'', comment = ''test''\<rparr>]"
  by (simp add: sorted_poi_dictionary_def)

lemma poi_line_two:
  "poi_line cpython default_config 63839667660000000
     \<lparr>isotime = ''2024-01-01T05:00:00+05:00'', source = ''W1AW'',
       latitude = ''33.2'', longitude = ''-112.1'', comment = []\<rparr> =
   Inr (poi_format cpython default_config
     \<lparr>isotime = ''2024-01-01T05:00:00+05:00'', source = ''W1AW'',
       latitude = ''33.2'', longitude = ''-112.1'', comment = []\<rparr>
     NAVIT_POI_INACTIVE_ICON_FILE_PATH)"
  "poi_line cpython default_config 63839667660000000
     \<lparr>isotime = ''2024-01-01T01:00:00Z'', source = ''N0CALL'',
       latitude = ''33.1'', longitude = ''-112.1'', comment = ''test''\<rparr> =
   Inr (poi_format cpython default_config
     \<lparr>isotime = ''2024-01-01T01:00:00Z'', source = ''N0CALL'',
       latitude = ''33.1'', longitude = ''-112.1'', comment = ''test''\<rparr>
     NAVIT_POI_ACTIVE_ICON_FILE_PATH)"
  by (simp_all add: poi_line_def is_inactive_def default_config_def parses older_than_def
      timedelta_minutes_def dt_add_def dt_less_utc_def MAX_WALL_def)

theorem written_in_descending_string_order_witness:
  "snd (refresh_navit_poi_file_from_dictionary cpython default_config (\<lambda>i. 63839667660000000)
     [(''N0CALL'', \<lparr>isotime = ''2024-01-01T01:00:00Z'', source = ''N0CALL'',
                    latitude = ''33.1'', longitude = ''-112.1'', comment = ''test''\<rparr>),
      (''W1AW'', \<lparr>isotime = ''2024-01-01T05:00:00+05:00'', source = ''W1AW'',
                  latitude = ''33.2'', longitude = ''-112.1'', comment = []\<rparr>)] ''old'') = None
   \<and> fst (refresh_navit_poi_file_from_dictionary cpython default_config (\<lambda>i. 63839667660000000)
     [(''N0CALL'', \<lparr>isotime = ''2024-01-01T01:00:00Z'', source = ''N0CALL'',
                    latitude = ''33.1'', longitude = ''-112.1'', comment = ''test''\<rparr>),
      (''W1AW'', \<lparr>isotime = ''2024-01-01T05:00:00+05:00'', source = ''W1AW'',
                  latitude = ''33.2'', longitude = ''-112.1'', comment = []\<rparr>)] ''old'') =
     poi_format cpython default_config
       \<lparr>isotime = ''2024-01-01T05:00:00+05:00'', source = ''W1AW'',
         latitude = ''33.2'', longitude = ''-112.1'', comment = []\<rparr>
       NAVIT_POI_INACTIVE_ICON_FILE_PATH @
     poi_format cpython default_config
       \<lparr>isotime = ''2024-01-01T01:00:00Z'', source = ''N0CALL'',
         latitude = ''33.1'', longitude = ''-112.1'', comment = ''test''\<rparr>
       NAVIT_POI_ACTIVE_ICON_FILE_PATH"
proof -
  let ?d = "[(''N0CALL'', \<lparr>isotime = ''2024-01-01T01:00:00Z'', source = ''N0CALL'',
                    latitude = ''33.1'', longitude = ''-112.1'', comment = ''test''\<rparr>),
      (''W1AW'', \<lparr>isotime = ''2024-01-01T05:00:00+05:00'', source = ''W1AW'',
                  latitude = ''33.2'', longitude = ''-112.1'', comment = []\<rparr>)]"
  have ok: "snd (refresh_navit_poi_file_from_dictionary cpython default_config
              (\<lambda>i. 63839667660000000) ?d ''old'') = None"
    by (simp add: refresh_navit_poi_file_from_dictionary_def sorted_two poi_line_two)
  with written_in_descending_string_order
    [where lib = cpython and d = ?d and cfg = default_config
      and clock = "\<lambda>i. 63839667660000000" and navit_poi_file = "''old''"]
  have "fst (refresh_navit_poi_file_from_dictionary cpython default_config
              (\<lambda>i. 63839667660000000) ?d ''old'') =
         concat (map (line_at cpython default_config (\<lambda>i. 63839667660000000))
           (enumerate 0 (sorted_poi_dictionary ?d)))"
    by blast
  with ok show ?thesis
    by (simp add: sorted_two line_at_def poi_line_two)
qed

text \<open>
  C5 as stated fails when the offsets differ: 05:00 at +05:00 is the instant 00:00 UTC,
  an hour before 01:00 UTC, and is written first, its string being the greater.
\<close>

theorem descending_instant_counterexample:
  "iso_string_valid cpython ''2024-01-01T01:00:00Z'' \<and> iso_string_valid cpython ''2024-01-01T05:00:00+05:00''
   \<and> sorted_poi_dictionary
     [(''N0CALL'', \<lparr>isotime = ''2024-01-01T01:00:00Z'', source = ''N0CALL'',
                    latitude = ''33.1'', longitude = ''-112.1'', comment = ''test''\<rparr>),
      (''W1AW'', \<lparr>isotime = ''2024-01-01T05:00:00+05:00'', source = ''W1AW'',
                  latitude = ''33.2'', longitude = ''-112.1'', comment = []\<rparr>)] =
     [\<lparr>isotime = ''2024-01-01T05:00:00+05:00'', source = ''W1AW'',
       latitude = ''33.2'', longitude = ''-112.1'', comment = []\<rparr>,
      \<lparr>isotime = ''2024-01-01T01:00:00Z'', source = ''N0CALL'',
       latitude = ''33.1'', longitude = ''-112.1'', comment = ''test''\<rparr>]
   \<and> utc_instant cpython ''2024-01-01T05:00:00+05:00'' = Some 63839664000000000
   \<and> utc_instant cpython ''2024-01-01T01:00:00Z'' = Some 63839667600000000"
  by (simp add: iso_valid_examples sorted_two utc_instant_examples)

subsection \<open>The POI file after a failure\<close>




subsection \<open>Rounding to a float\<close>

lemma round_half_even_error: "\<bar>of_int (round_half_even z) - z\<bar> \<le> 1 / 2"
proof -
  have "of_int \<lfloor>z\<rfloor> \<le> z" and "z < of_int \<lfloor>z\<rfloor> + 1"
    by linarith+
  then show ?thesis
    unfolding round_half_even_def Let_def by (auto simp: abs_le_iff)
qed

lemma round_half_even_nonneg: "0 \<le> z \<Longrightarrow> 0 \<le> round_half_even z"
  unfolding round_half_even_def Let_def by auto

lemma round_half_even_of_int: "round_half_even (of_int k) = k"
  unfolding round_half_even_def Let_def by simp

lemma round_half_even_le: "z \<le> of_int K \<Longrightarrow> round_half_even z \<le> K"
proof -
  assume le: "z \<le> of_int K"
  then have f: "\<lfloor>z\<rfloor> \<le> K" by (simp add: floor_le_iff)
  show ?thesis
  proof (cases "\<lfloor>z\<rfloor> = K")
    case True
    with le have "z - of_int \<lfloor>z\<rfloor> \<le> 0" by simp
    then have "z - of_int \<lfloor>z\<rfloor> < 1 / 2" by linarith
    then show ?thesis using True by (simp add: round_half_even_def Let_def)
  next
    case False
    with f have "\<lfloor>z\<rfloor> + 1 \<le> K" by simp
    then show ?thesis unfolding round_half_even_def Let_def by auto
  qed
qed

lemma binade_le:
  assumes "0 < x"
  shows "2 powi (binade x) \<le> x"
proof -
  obtain p q where pq: "quotient_of x = (p, q)" by (cases "quotient_of x")
  then have q: "0 < q" by (rule quotient_of_denom_pos)
  have x: "x = of_int p / of_int q" using pq by (rule quotient_of_div)
  with assms q have p: "0 < p" by (simp add: zero_less_divide_iff)
  let ?k = "bitlen p - bitlen q"
  show ?thesis
  proof (cases "(2::rat) powi ?k \<le> x")
    case True
    then show ?thesis by (simp add: binade_def pq)
  next
    case False
    have bp: "2 ^ nat (bitlen p - 1) \<le> p" and bq: "q < 2 ^ nat (bitlen q)"
      using bitlen_bounds [OF p] bitlen_bounds [OF q] by simp_all
    have "bitlen p \<noteq> 0" and "bitlen q \<noteq> 0"
      using p q by (simp_all add: bitlen_eq_zero_iff)
    then have b1: "1 \<le> bitlen p" "1 \<le> bitlen q"
      using bitlen_nonneg [of p] bitlen_nonneg [of q] by linarith+
    have "(of_int q :: rat) < of_int (2 ^ nat (bitlen q))"
      using bq by (simp only: of_int_less_iff)
    then have q2: "(of_int q :: rat) \<le> 2 ^ nat (bitlen q)" by simp
    have "(of_int (2 ^ nat (bitlen p - 1)) :: rat) \<le> of_int p"
      using bp by (simp only: of_int_le_iff)
    then have p2: "(2::rat) ^ nat (bitlen p - 1) \<le> of_int p" by simp
    have "(2::rat) powi (?k - 1) * of_int q \<le> 2 powi (?k - 1) * 2 ^ nat (bitlen q)"
      using q2 by (intro mult_left_mono) simp_all
    also have "\<dots> = 2 powi (?k - 1) * 2 powi (bitlen q)"
      using b1 by (simp add: power_int_def)
    also have "\<dots> = 2 powi (bitlen p - 1)"
      by (simp add: power_int_add [symmetric])
    also have "\<dots> = 2 ^ nat (bitlen p - 1)"
      using b1 by (simp add: power_int_def)
    also have "\<dots> \<le> of_int p"
      by (rule p2)
    finally have "(2::rat) powi (?k - 1) * of_int q \<le> of_int p" .
    then have "(2::rat) powi (?k - 1) \<le> of_int p / of_int q"
      using q by (simp add: pos_le_divide_eq)
    then have "(2::rat) powi (?k - 1) \<le> x"
      by (simp only: x)
    with False show ?thesis by (simp add: binade_def pq)
  qed
qed

lemma fl_error: "\<bar>fl x - x\<bar> \<le> \<bar>x\<bar> / 2 ^ 53"
proof (cases "x = 0")
  case True
  then show ?thesis by (simp add: fl_def)
next
  case False
  define e where "e = binade \<bar>x\<bar>"
  define u :: rat where "u = 2 powi (e - 52)"
  have u: "0 < u" by (simp add: u_def)
  have e: "2 powi e \<le> \<bar>x\<bar>"
    using False binade_le [of "\<bar>x\<bar>"] by (simp add: e_def)
  have fl: "fl x = of_int (round_half_even (x / u)) * u"
    using False by (simp add: fl_def Let_def u_def e_def)
  have "fl x - x = (of_int (round_half_even (x / u)) - x / u) * u"
    using u by (simp add: fl algebra_simps)
  then have "\<bar>fl x - x\<bar> = \<bar>of_int (round_half_even (x / u)) - x / u\<bar> * u"
    using u by (simp add: abs_mult)
  also have "\<dots> \<le> 1 / 2 * u"
    using u round_half_even_error [of "x / u"] by (intro mult_right_mono) simp_all
  also have "\<dots> = 2 powi e / 2 ^ 53"
    by (simp add: u_def power_int_diff)
  also have "\<dots> \<le> \<bar>x\<bar> / 2 ^ 53"
    using e by (simp add: divide_right_mono)
  finally show ?thesis .
qed

lemma fl_nonneg: "0 \<le> x \<Longrightarrow> 0 \<le> fl x"
  by (auto simp: fl_def Let_def intro!: mult_nonneg_nonneg round_half_even_nonneg)

lemma fl_of_int:
  assumes "0 \<le> d" and "d < 2 ^ 53"
  shows "fl (of_int d) = of_int d"
proof (cases "d = 0")
  case True
  then show ?thesis by (simp add: fl_def)
next
  case False
  with assms have pos: "0 < (of_int d :: rat)" by simp
  define e where "e = binade (of_int d)"
  have "(2::rat) powi e \<le> of_int d"
    using binade_le [OF pos] by (simp add: e_def)
  also have "(of_int d :: rat) < 2 ^ 53"
  proof -
    have "(of_int d :: rat) < of_int (2 ^ 53)"
      using assms(2) by (simp only: of_int_less_iff)
    then show ?thesis by simp
  qed
  finally have "(2::rat) powi e < 2 powi 53" by simp
  then have "e < 53"
    by (intro power_int_le_imp_less_exp [of "2::rat"]) simp_all
  then have e: "e \<le> 52" by simp
  define j where "j = nat (52 - e)"
  have u: "(2::rat) powi (e - 52) = 1 / 2 ^ j"
    using e by (simp add: j_def power_int_def field_simps)
  have "of_int d / (1 / (2::rat) ^ j) = of_int (d * 2 ^ j)" by simp
  then have "round_half_even (of_int d / (1 / (2::rat) ^ j)) = d * 2 ^ j"
    by (simp only: round_half_even_of_int)
  then show ?thesis
    using False assms(1) by (simp add: fl_def Let_def e_def [symmetric] u)
qed

subsection \<open>Decimal digits\<close>

lemma digit_cases:
  assumes "0 \<le> d" and "d < (10::int)"
  shows "d = 0 \<or> d = 1 \<or> d = 2 \<or> d = 3 \<or> d = 4 \<or> d = 5 \<or> d = 6 \<or> d = 7 \<or> d = 8 \<or> d = 9"
  using assms by presburger

lemma digit_char_is_digit: "0 \<le> d \<Longrightarrow> d < 10 \<Longrightarrow> is_digit (digit_char d)"
  using digit_cases [of d] by (auto simp: digit_char_def is_digit_def)

lemma digit_val_digit_char: "0 \<le> d \<Longrightarrow> d < 10 \<Longrightarrow> digit_val (digit_char d) = d"
  using digit_cases [of d] by (auto simp: digit_char_def digit_val_def)

lemma is_digit_not_punct: "is_digit c \<Longrightarrow> c \<noteq> CHR '','' \<and> c \<noteq> CHR ''.''"
  by (auto simp: is_digit_def)

lemma decimal_snoc: "decimal (ds @ [d]) = 10 * decimal ds + d"
  by (simp add: decimal_def)

lemma show_digits_digits: "0 \<le> n \<Longrightarrow> list_all is_digit (show_digits n)"
proof (induction n rule: show_digits.induct)
  case (1 n)
  show ?case
  proof (cases "n < 10")
    case True
    with "1.prems" show ?thesis by (simp add: show_digits.simps [of n] digit_char_is_digit)
  next
    case False
    with 1 show ?thesis by (simp add: show_digits.simps [of n] digit_char_is_digit)
  qed
qed

lemma show_digits_decimal: "0 \<le> n \<Longrightarrow> decimal (map digit_val (show_digits n)) = n"
proof (induction n rule: show_digits.induct)
  case (1 n)
  show ?case
  proof (cases "n < 10")
    case True
    with "1.prems" show ?thesis
      by (simp add: show_digits.simps [of n] digit_val_digit_char decimal_def)
  next
    case False
    with 1 show ?thesis
      by (simp add: show_digits.simps [of n] digit_val_digit_char decimal_snoc)
  qed
qed

lemma show_digits_nonempty: "show_digits n \<noteq> []"
  by (simp add: show_digits.simps [of n])

lemma show_digits_length: "n < 10 ^ Suc k \<Longrightarrow> length (show_digits n) \<le> Suc k"
proof (induction n arbitrary: k rule: show_digits.induct)
  case (1 n)
  show ?case
  proof (cases "n < 10")
    case True
    then show ?thesis by (simp add: show_digits.simps [of n])
  next
    case False
    with "1.prems" obtain k' where k: "k = Suc k'"
      by (cases k) auto
    have "\<And>M::int. n < 10 * M \<Longrightarrow> n div 10 < M" by arith
    with "1.prems" k have "n div 10 < 10 ^ Suc k'"
      by simp
    from "1.IH" [OF False this] False k show ?thesis
      by (simp add: show_digits.simps [of n])
  qed
qed

lemma zero_pad_digits: "list_all is_digit s \<Longrightarrow> list_all is_digit (zero_pad k s)"
  by (auto simp: zero_pad_def list_all_iff is_digit_def)

lemma decimal_zeros: "foldl (\<lambda>a d. 10 * a + d) 0 (replicate j (0::int)) = 0"
  by (induction j) simp_all

lemma zero_pad_decimal: "decimal (map digit_val (zero_pad k s)) = decimal (map digit_val s)"
  by (simp add: zero_pad_def decimal_def digit_val_def decimal_zeros)

lemma zero_pad_length: "length s \<le> k \<Longrightarrow> length (zero_pad k s) = k"
  by (simp add: zero_pad_def)

lemma padded_number:
  assumes "0 \<le> n" and "n < 10 ^ Suc k"
  shows "length (zero_pad (Suc k) (show_digits n)) = Suc k"
    and "list_all is_digit (zero_pad (Suc k) (show_digits n))"
    and "decimal (map digit_val (zero_pad (Suc k) (show_digits n))) = n"
  using show_digits_length [OF assms(2)] assms(1)
  by (simp_all add: zero_pad_length zero_pad_digits show_digits_digits zero_pad_decimal
      show_digits_decimal)

subsection \<open>The minutes field\<close>

lemma format_09_6f_shape:
  assumes "0 \<le> y" and "y \<le> 99"
  shows "format_09_6f y =
           zero_pad 2 (show_digits (round_half_even (y * 1000000) div 1000000)) @ ''.'' @
           zero_pad 6 (show_digits (round_half_even (y * 1000000) mod 1000000))"
    and "round_half_even (y * 1000000) div 1000000 < 100"
    and "0 \<le> round_half_even (y * 1000000)"
proof -
  let ?N = "round_half_even (y * 1000000)"
  show N0: "0 \<le> ?N" using assms(1) by (intro round_half_even_nonneg) simp
  have "y * 1000000 \<le> of_int 99000000" using assms(2) by simp
  then have N: "?N \<le> 99000000" by (rule round_half_even_le)
  then show ip: "?N div 1000000 < 100" by simp
  then have "?N div 1000000 < 10 ^ Suc 1" by simp
  then have la: "length (show_digits (?N div 1000000)) \<le> 2"
    using show_digits_length [of "?N div 1000000" 1] by simp
  have "0 \<le> ?N mod 1000000" and "?N mod 1000000 < 10 ^ Suc 5" by simp_all
  then have lb: "length (zero_pad 6 (show_digits (?N mod 1000000))) = 6"
    using padded_number(1) [of "?N mod 1000000" 5] by simp
  have "9 - (length (show_digits (?N div 1000000)) + 7) =
        2 - length (show_digits (?N div 1000000))"
    by simp
  then show "format_09_6f y =
           zero_pad 2 (show_digits (?N div 1000000)) @ ''.'' @
           zero_pad 6 (show_digits (?N mod 1000000))"
    using assms(1) lb by (simp add: format_09_6f_def fixed6_def Let_def zero_pad_def [of 9]
        zero_pad_def [of 2])
qed

subsection \<open>Decoding\<close>

lemma decode_encoded:
  assumes "0 \<le> d"
    and "length p2 = 2" and "length p6 = 6"
    and "list_all is_digit p2" and "list_all is_digit p6"
  shows "decode_conceptually (format_d d @ (p2 @ ''.'' @ p6) @ '','' @ [c]) =
         (let v = of_int d + (of_int (decimal (map digit_val p2)) +
                              of_int (decimal (map digit_val p6)) / 1000000) / 60
          in if c = CHR ''S'' \<or> c = CHR ''W'' then - v else v)"
proof -
  let ?A = "show_digits d"
  let ?F = "p2 @ ''.'' @ p6"
  have fd: "format_d d = ?A" using assms(1) by (simp add: format_d_def)
  have "\<forall>x \<in> set (?A @ ?F). x \<noteq> CHR '',''"
    using show_digits_digits [OF assms(1)] assms(4,5) is_digit_not_punct
    by (auto simp: list_all_iff)
  then have "takeWhile (\<lambda>c. c \<noteq> CHR '','') ((?A @ ?F) @ '','' @ [c]) = ?A @ ?F"
    by (subst takeWhile_append2) auto
  then have body: "takeWhile (\<lambda>c. c \<noteq> CHR '','') (format_d d @ ?F @ '','' @ [c]) = ?A @ ?F"
    by (simp add: fd)
  have len: "length (?A @ ?F) - 9 = length ?A"
    using assms(2,3) by simp
  have "decimal (map digit_val ?A) = d"
    using assms(1) by (simp add: show_digits_decimal)
  then show ?thesis
    unfolding decode_conceptually_def body len Let_def
    using assms(2,3) by simp
qed

subsection \<open>Coordinates\<close>

lemma fl_close:
  assumes "0 \<le> z" and "z \<le> b"
  shows "fl z - z \<le> b / 2 ^ 53" and "z - fl z \<le> b / 2 ^ 53"
proof -
  have "\<bar>z\<bar> / 2 ^ 53 \<le> b / 2 ^ 53"
    using assms by (intro divide_right_mono) simp_all
  with fl_error [of z] have "\<bar>fl z - z\<bar> \<le> b / 2 ^ 53"
    by (rule order_trans)
  then have "fl z - z \<le> b / 2 ^ 53 \<and> - (fl z - z) \<le> b / 2 ^ 53"
    by (simp only: abs_le_iff)
  then show "fl z - z \<le> b / 2 ^ 53" and "z - fl z \<le> b / 2 ^ 53"
    by linarith+
qed

lemma encode_common:
  fixes x :: rat and c :: char
  assumes "\<bar>x\<bar> < 180"
  defines "s \<equiv> format_d \<lfloor>fl (of_int \<lfloor>\<bar>x\<bar>\<rfloor>)\<rfloor> @
                format_09_6f (fl (fl (\<bar>x\<bar> - fl (of_int \<lfloor>\<bar>x\<bar>\<rfloor>)) * 60)) @ '','' @ [c]"
  shows "\<exists>field. s = format_d \<lfloor>\<bar>x\<bar>\<rfloor> @ field @ '','' @ [c]
           \<and> length field = 9 \<and> field ! 2 = CHR ''.''
           \<and> list_all is_digit (take 2 field @ drop 3 field)
           \<and> \<bar>decode_conceptually s - (if c = CHR ''S'' \<or> c = CHR ''W'' then - \<bar>x\<bar> else \<bar>x\<bar>)\<bar>
               \<le> (1 / 2000000 + 1 / 2 ^ 46) / 60"
proof -
  define u where "u = \<bar>x\<bar>"
  define d where "d = \<lfloor>u\<rfloor>"
  define r where "r = u - of_int d"
  define m where "m = fl r"
  define y where "y = fl (m * 60)"
  define n where "n = round_half_even (y * 1000000)"
  define p2 where "p2 = zero_pad 2 (show_digits (n div 1000000))"
  define p6 where "p6 = zero_pad 6 (show_digits (n mod 1000000))"
  define e :: rat where "e = 1 / 2 ^ 53"
  define t :: rat where "t = 1 / 2 ^ 46"
  define B :: rat where "B = (1 / 2000000 + 1 / 2 ^ 46) / 60"
  have e: "0 < e" "e \<le> 1 / 60" "121 * e \<le> t"
    by (simp_all add: e_def t_def)
  have B: "60 * B = 1 / 2000000 + t"
    by (simp add: B_def t_def)
  have u: "0 \<le> u" "u < 180" using assms(1) by (simp_all add: u_def)
  have d: "0 \<le> d" "d < 180" using u by (simp_all add: d_def floor_less_iff)
  then have "d < 2 ^ 53" by simp
  with d have fd: "fl (of_int d) = of_int d" by (intro fl_of_int)
  have r: "0 \<le> r" "r < 1" unfolding r_def d_def by linarith+
  have m0: "0 \<le> m" using r by (simp add: m_def fl_nonneg)
  have mr: "m - r \<le> e" "r - m \<le> e"
    using fl_close [of r 1] r by (simp_all add: m_def e_def)
  have m1: "m * 60 \<le> 61" using mr r e by linarith
  have m60: "0 \<le> m * 60" using m0 by simp
  have y0: "0 \<le> y" using m60 unfolding y_def by (rule fl_nonneg)
  have ym: "y - m * 60 \<le> 61 * e" "m * 60 - y \<le> 61 * e"
    using fl_close [OF m60 m1] by (simp_all add: y_def e_def)
  have yr: "y - r * 60 \<le> t" "r * 60 - y \<le> t"
    using ym mr e by linarith+
  have y99: "y \<le> 99" using ym m1 e by linarith
  have shape: "format_09_6f y = p2 @ ''.'' @ p6" and ip: "n div 1000000 < 100" and n0: "0 \<le> n"
    using format_09_6f_shape [OF y0 y99] by (simp_all add: n_def p2_def p6_def)
  have "0 \<le> n div 1000000" using n0 by simp
  moreover have "n div 1000000 < 10 ^ Suc 1" using ip by simp
  ultimately have P2: "length p2 = 2" "list_all is_digit p2"
      "decimal (map digit_val p2) = n div 1000000"
    using padded_number [of "n div 1000000" 1] by (simp_all add: p2_def numeral_2_eq_2)
  have "0 \<le> n mod 1000000" and "n mod 1000000 < 10 ^ Suc 5" by simp_all
  then have P6: "length p6 = 6" "list_all is_digit p6"
      "decimal (map digit_val p6) = n mod 1000000"
    using padded_number [of "n mod 1000000" 5] by (simp_all add: p6_def)
  have s: "s = format_d d @ (p2 @ ''.'' @ p6) @ '','' @ [c]"
    unfolding s_def using fd shape
    by (simp add: u_def [symmetric] d_def [symmetric] r_def [symmetric] m_def [symmetric]
        y_def [symmetric])
  define q :: rat where "q = of_int (n div 1000000) + of_int (n mod 1000000) / 1000000"
  define v :: rat where "v = of_int d + q / 60"
  have dec: "decode_conceptually s = (if c = CHR ''S'' \<or> c = CHR ''W'' then - v else v)"
    unfolding s using decode_encoded [OF d(1) P2(1) P6(1) P2(2) P6(2), of c]
    by (simp add: Let_def P2(3) P6(3) v_def q_def)
  have "(of_int n :: rat) = of_int (n div 1000000 * 1000000 + n mod 1000000)" by simp
  also have "\<dots> = of_int (n div 1000000) * 1000000 + of_int (n mod 1000000)"
    by (simp only: of_int_add of_int_mult of_int_numeral)
  finally have qn: "q * 1000000 = of_int n"
    by (simp add: q_def field_simps)
  have "\<bar>of_int n - y * 1000000\<bar> \<le> 1 / 2"
    unfolding n_def by (rule round_half_even_error)
  then have "of_int n - y * 1000000 \<le> 1 / 2 \<and> - (of_int n - y * 1000000) \<le> 1 / 2"
    by (simp only: abs_le_iff)
  then have qy: "q - y \<le> 1 / 2000000" "y - q \<le> 1 / 2000000"
    using qn by linarith+
  have vu: "60 * (v - u) = q - r * 60"
    by (simp add: v_def r_def algebra_simps)
  have "60 * (v - u) \<le> 60 * B"
    unfolding vu B using qy(1) yr(1) by linarith
  then have vB: "v - u \<le> B" by simp
  have "60 * (u - v) = - (60 * (v - u))" by simp
  then have "60 * (u - v) \<le> 60 * B"
    unfolding vu B using qy(2) yr(2) by linarith
  then have uB: "u - v \<le> B" by simp
  note vB uB
  then have bound: "\<bar>v - u\<bar> \<le> B" "\<bar>- v - - u\<bar> \<le> B"
    by (simp_all add: abs_le_iff)
  have field: "length (p2 @ ''.'' @ p6) = 9" "(p2 @ ''.'' @ p6) ! 2 = CHR ''.''"
    "list_all is_digit (take 2 (p2 @ ''.'' @ p6) @ drop 3 (p2 @ ''.'' @ p6))"
    using P2 P6 by (simp_all add: nth_append)
  have "\<bar>decode_conceptually s - (if c = CHR ''S'' \<or> c = CHR ''W'' then - u else u)\<bar> \<le> B"
    unfolding dec using bound by (simp split: if_splits)
  then have "\<bar>decode_conceptually s - (if c = CHR ''S'' \<or> c = CHR ''W'' then - \<bar>x\<bar> else \<bar>x\<bar>)\<bar>
               \<le> (1 / 2000000 + 1 / 2 ^ 46) / 60"
    by (simp only: u_def B_def)
  moreover have "s = format_d \<lfloor>\<bar>x\<bar>\<rfloor> @ (p2 @ ''.'' @ p6) @ '','' @ [c]"
    using s by (simp only: d_def u_def)
  ultimately show ?thesis
    using field by (intro exI [of _ "p2 @ ''.'' @ p6"] conjI)
qed

text \<open>
  C8. For a latitude strictly between -90 and 90, and a longitude strictly between -180 and
  180, the encoder prints the integer degrees, then the minutes as a field of exactly nine
  characters (two digits, the point, six digits), a comma and the hemisphere: S or W exactly
  when the coordinate is negative, N or E otherwise. Decoding the string (degrees plus
  minutes over 60, with the sign of the hemisphere) gives the coordinate back within half a
  unit of the sixth decimal of the minutes, plus the rounding of the two float operations
  (at most \<open>2\<^sup>-\<^sup>4\<^sup>6\<close> minute).
\<close>

theorem nmea_round_trip:
  "(- 90 < x \<and> x < 90 \<longrightarrow>
      (\<exists>field. convert_latitude_to_nmea_format x =
                 format_d \<lfloor>\<bar>x\<bar>\<rfloor> @ field @ '','' @ [if x < 0 then CHR ''S'' else CHR ''N'']
               \<and> length field = 9 \<and> field ! 2 = CHR ''.''
               \<and> list_all is_digit (take 2 field @ drop 3 field))
      \<and> \<bar>decode_conceptually (convert_latitude_to_nmea_format x) - x\<bar>
          \<le> (1 / 2000000 + 1 / 2 ^ 46) / 60)
   \<and> (- 180 < y \<and> y < 180 \<longrightarrow>
      (\<exists>field. convert_longitude_to_nmea_format y =
                 format_d \<lfloor>\<bar>y\<bar>\<rfloor> @ field @ '','' @ [if y < 0 then CHR ''W'' else CHR ''E'']
               \<and> length field = 9 \<and> field ! 2 = CHR ''.''
               \<and> list_all is_digit (take 2 field @ drop 3 field))
      \<and> \<bar>decode_conceptually (convert_longitude_to_nmea_format y) - y\<bar>
          \<le> (1 / 2000000 + 1 / 2 ^ 46) / 60)"
proof (intro conjI impI)
  assume "- 90 < x \<and> x < 90"
  then have a: "\<bar>x\<bar> < 180" by (auto simp: abs_less_iff)
  let ?c = "if x < 0 then CHR ''S'' else CHR ''N''"
  have sgn: "(if ?c = CHR ''S'' \<or> ?c = CHR ''W'' then - \<bar>x\<bar> else \<bar>x\<bar>) = x" by simp
  from encode_common [OF a, of ?c]
  show "\<exists>field. convert_latitude_to_nmea_format x =
                 format_d \<lfloor>\<bar>x\<bar>\<rfloor> @ field @ '','' @ [?c]
               \<and> length field = 9 \<and> field ! 2 = CHR ''.''
               \<and> list_all is_digit (take 2 field @ drop 3 field)"
    unfolding convert_latitude_to_nmea_format_def Let_def by blast
  from encode_common [OF a, of ?c]
  show "\<bar>decode_conceptually (convert_latitude_to_nmea_format x) - x\<bar>
          \<le> (1 / 2000000 + 1 / 2 ^ 46) / 60"
    unfolding convert_latitude_to_nmea_format_def Let_def sgn by blast
next
  assume "- 180 < y \<and> y < 180"
  then have a: "\<bar>y\<bar> < 180" by (auto simp: abs_less_iff)
  let ?c = "if y < 0 then CHR ''W'' else CHR ''E''"
  have sgn: "(if ?c = CHR ''S'' \<or> ?c = CHR ''W'' then - \<bar>y\<bar> else \<bar>y\<bar>) = y" by simp
  from encode_common [OF a, of ?c]
  show "\<exists>field. convert_longitude_to_nmea_format y =
                 format_d \<lfloor>\<bar>y\<bar>\<rfloor> @ field @ '','' @ [?c]
               \<and> length field = 9 \<and> field ! 2 = CHR ''.''
               \<and> list_all is_digit (take 2 field @ drop 3 field)"
    unfolding convert_longitude_to_nmea_format_def Let_def by blast
  from encode_common [OF a, of ?c]
  show "\<bar>decode_conceptually (convert_longitude_to_nmea_format y) - y\<bar>
          \<le> (1 / 2000000 + 1 / 2 ^ 46) / 60"
    unfolding convert_longitude_to_nmea_format_def Let_def sgn by blast
qed

lemma LATITUDE_range: "- 90 < LATITUDE \<and> LATITUDE < 90"
  by code_simp

lemma LONGITUDE_range: "- 180 < LONGITUDE \<and> LONGITUDE < 180"
  by code_simp

lemma LATITUDE_nmea: "convert_latitude_to_nmea_format LATITUDE = ''3326.100000,N''"
  by code_simp

lemma LONGITUDE_nmea: "convert_longitude_to_nmea_format LONGITUDE = ''11200.500000,W''"
  by code_simp

theorem nmea_round_trip_witness:
  "- 90 < LATITUDE \<and> LATITUDE < 90
   \<and> convert_latitude_to_nmea_format LATITUDE = ''3326.100000,N''
   \<and> \<bar>decode_conceptually ''3326.100000,N'' - LATITUDE\<bar> \<le> (1 / 2000000 + 1 / 2 ^ 46) / 60
   \<and> - 180 < LONGITUDE \<and> LONGITUDE < 180
   \<and> convert_longitude_to_nmea_format LONGITUDE = ''11200.500000,W''
   \<and> \<bar>decode_conceptually ''11200.500000,W'' - LONGITUDE\<bar> \<le> (1 / 2000000 + 1 / 2 ^ 46) / 60"
  using nmea_round_trip [of LATITUDE LONGITUDE] LATITUDE_range LONGITUDE_range
  by (simp only: LATITUDE_nmea LONGITUDE_nmea)

subsection \<open>The GPGGA sentence\<close>

lemma gpgga_sentence_form:
  "\<exists>checksum. get_checksum (map of_char (gpgga_body (strftime_HMS (datetime_now utc zone))))
        = Inr checksum
     \<and> length checksum = 2
     \<and> get_mock_gps_location_in_nmea_gpgga_format utc zone =
         Inr (''$'' @ gpgga_body (strftime_HMS (datetime_now utc zone)) @ ''*'' @ checksum)"
proof -
  let ?body = "gpgga_body (strftime_HMS (datetime_now utc zone))"
  have small: "\<forall>c \<in> set (map of_char ?body). c < (256::nat)"
    by auto
  have "foldl (XOR) (0::nat) (map of_char ?body) < 2 ^ 8"
    using small by (intro foldl_xor_less) simp_all
  then have x: "foldl (XOR) (0::nat) (map of_char ?body) < 256" by simp
  have "checksum_loop 0 (map of_char ?body) = Inr (foldl (XOR) 0 (map of_char ?body))"
    using small by (intro checksum_loop_small) simp_all
  then have "get_checksum (map of_char ?body) =
      Inr (format_02X (foldl (XOR) 0 (map of_char ?body)))"
    by (simp add: get_checksum_def)
  then show ?thesis
    using format_02X_byte [OF x]
    by (simp add: get_mock_gps_location_in_nmea_gpgga_format_def Let_def)
qed

lemma body_0500:
  "gpgga_body (strftime_HMS (datetime_now 63839707200000000 (- 25200000000))) =
     ''GPGGA,050000,3326.100000,N,11200.500000,W,1,12,1.0,0.0,M,0.0,M,,''"
  by code_simp

lemma utc_1200: "strftime_HMS \<lparr>wall = 63839707200000000, utcoffset = Some 0\<rparr> = ''120000''"
  by code_simp

lemma int_foldl_xor:
  "int (foldl (XOR) a cs) = foldl (XOR) (int a) (map int cs)"
  by (induction cs arbitrary: a) (simp_all add: of_nat_xor_eq)

lemma int_foldl_xor_0:
  "int (foldl (XOR) 0 cs) = foldl (XOR) 0 (map int cs)"
  using int_foldl_xor [of 0 cs] by simp

lemma checksum_0500:
  "get_checksum (map of_char ''GPGGA,050000,3326.100000,N,11200.500000,W,1,12,1.0,0.0,M,0.0,M,,'')
     = Inr ''65''"
proof -
  let ?s = "''GPGGA,050000,3326.100000,N,11200.500000,W,1,12,1.0,0.0,M,0.0,M,,''"
  have small: "\<forall>c \<in> set (map of_char ?s). c < (256::nat)"
    by (auto simp del: list.map)
  have loop: "checksum_loop 0 (map of_char ?s) = Inr (foldl (XOR) 0 (map of_char ?s))"
    using small by (intro checksum_loop_small) simp_all
  have "int (foldl (XOR) (0::nat) (map of_char ?s)) =
        foldl (XOR) 0 (map int (map of_char ?s))"
    by (rule int_foldl_xor_0)
  also have "map int (map of_char ?s) = (map of_char ?s :: int list)"
    by (simp only: map_map comp_def of_nat_of_char)
  also have "foldl (XOR) (0::int) (map of_char ?s) = 101"
    by code_simp
  finally have "foldl (XOR) (0::nat) (map of_char ?s) = 101"
    by linarith
  with loop have "get_checksum (map of_char ?s) = Inr (format_02X 101)"
    by (simp only: get_checksum_def sum.case)
  also have "format_02X 101 = ''65''"
    by (simp add: format_02X_byte hex_digit_def)
  finally show ?thesis .
qed

text \<open>
  C6. The sentence has the form the claim gives, as \<open>gpgga_sentence_form\<close> shows for
  every clock, but its time field is the local time of the machine, not UTC: at the instant
  2024-01-01 12:00:00 UTC on a machine seven hours west of UTC the field is \<open>050000\<close>.
\<close>

theorem gpgga_time_is_local:
  "get_mock_gps_location_in_nmea_gpgga_format 63839707200000000 (- 25200000000) =
     Inr ''$GPGGA,050000,3326.100000,N,11200.500000,W,1,12,1.0,0.0,M,0.0,M,,*65''
   \<and> strftime_HMS \<lparr>wall = 63839707200000000, utcoffset = Some 0\<rparr> = ''120000''"
  by (simp only: get_mock_gps_location_in_nmea_gpgga_format_def Let_def body_0500
      checksum_0500 utc_1200 sum.case) simp

end
